theory Spec2Isabelle
  imports
    Complex_Main
    "HOL-Library.Char_ord"
    "HOL-Library.List_Lexorder"
    "HOL-Library.AList"
    "HOL-Library.Multiset"
begin

section \<open>movies.py: video scan cache, title deduplication, metadata cache, report\<close>

text \<open>
  A shallow embedding of \<^verbatim>\<open>movies.py\<close>. Python exceptions are values of
  \<open>pyexc\<close> on the left of a sum; the two shelve files, the filesystem and the remote
  movie database are explicit arguments or fields of an explicit state.
\<close>

subsection \<open>Exceptions\<close>

text \<open>
  Every constructor stands for a subclass of Python's \<^verbatim>\<open>Exception\<close>, so each
  of them is caught by \<^verbatim>\<open>except Exception\<close>. \<open>OSError p\<close> is what
  \<^verbatim>\<open>Path(p).stat()\<close> raises for a path that cannot be read; \<open>ProviderError\<close>
  is any exception of an external collaborator (scanner, movie database).
\<close>

datatype pyexc =
    OSError string
  | KeyError string
  | TypeError
  | ValueError
  | OverflowError
  | ProviderError string

subsection \<open>Scan cache key\<close>

text \<open>
  \<^verbatim>\<open>' '.join(xs)\<close> for a separator \<open>sep\<close>: the items with the separator
  between neighbours, nothing before the first or after the last.
\<close>

fun join :: "string \<Rightarrow> string list \<Rightarrow> string" where
  "join sep [] = []"
| "join sep [x] = x"
| "join sep (x # y # ys) = x @ sep @ join sep (y # ys)"

text \<open>
  \<^verbatim>\<open>videos_key = ' '.join(sorted(map(str, dirs)))\<close>. A directory is given by its
  string form \<^verbatim>\<open>str(d)\<close>; \<^verbatim>\<open>sorted\<close> on strings orders them
  lexicographically by character code, which is the order of \<open>List_Lexorder\<close> over
  \<open>Char_ord\<close>.
\<close>

definition videos_key :: "string list \<Rightarrow> string" where
  "videos_key dirs = join '' '' (sort dirs)"

subsection \<open>Video descriptors and deduplication by title\<close>

text \<open>
  A video descriptor as the scanner returns it: the fields of it that the program reads
  are \<^verbatim>\<open>video.title\<close>, \<^verbatim>\<open>video.year\<close> (an integer or
  \<^verbatim>\<open>None\<close>) and \<^verbatim>\<open>video.name\<close> (the path of the file).
\<close>

record video =
  title :: string
  year :: "int option"
  name :: string

text \<open>
  The filesystem as far as the program reads it: \<^verbatim>\<open>Path(p).stat().st_size\<close>
  is \<open>Some\<close> size for a path that can be read and \<open>None\<close> for one where
  \<^verbatim>\<open>stat\<close> raises.
\<close>

type_synonym filesystem = "string \<Rightarrow> nat option"

text \<open>
  \<^verbatim>\<open>def video_size(video): return Path(video.name).stat().st_size\<close>
\<close>

definition video_size :: "filesystem \<Rightarrow> video \<Rightarrow> pyexc + nat" where
  "video_size fs video =
     (case fs (name video) of
        None \<Rightarrow> Inl (OSError (name video))
      | Some st_size \<Rightarrow> Inr st_size)"

text \<open>
  \<^verbatim>\<open>max(video, other, key=video_size)\<close>: the key of \<open>video\<close> is computed
  first, then the key of \<open>other\<close>; \<open>other\<close> is returned only when its key is
  strictly greater, so on equal sizes the first argument wins.
\<close>

definition max_by_size :: "filesystem \<Rightarrow> video \<Rightarrow> video \<Rightarrow> pyexc + video" where
  "max_by_size fs video other =
     (case video_size fs video of
        Inl e \<Rightarrow> Inl e
      | Inr size_video \<Rightarrow>
          (case video_size fs other of
             Inl e \<Rightarrow> Inl e
           | Inr size_other \<Rightarrow>
               Inr (if size_other > size_video then other else video)))"

text \<open>
  The loop of \<^verbatim>\<open>unique_videos\<close> over the dictionary \<open>unique\<close>, an
  association list in insertion order: \<open>map_of\<close> is \<^verbatim>\<open>unique.get\<close> and
  \<open>AList.update\<close> is the assignment \<^verbatim>\<open>unique[video.title] = ...\<close>
  (it replaces the value of a key in place and appends a new key at the end).
  \<^verbatim>\<open>
  for video in videos:
      other = unique.get(video.title)
      if other is None:
          unique[video.title] = video
      else:
          unique[video.title] = max(video, other, key=video_size)
  \<close>
\<close>

fun unique_loop ::
  "filesystem \<Rightarrow> video list \<Rightarrow> (string \<times> video) list \<Rightarrow> pyexc + (string \<times> video) list"
where
  "unique_loop fs [] unique = Inr unique"
| "unique_loop fs (video # videos) unique =
     (case map_of unique (title video) of
        None \<Rightarrow> unique_loop fs videos (AList.update (title video) video unique)
      | Some other \<Rightarrow>
          (case max_by_size fs video other of
             Inl e \<Rightarrow> Inl e
           | Inr largest \<Rightarrow>
               unique_loop fs videos (AList.update (title video) largest unique)))"

text \<open>
  \<^verbatim>\<open>unique_videos(videos)\<close> starts from the empty dictionary and returns
  \<^verbatim>\<open>set(unique.values())\<close>.
\<close>

definition unique_videos :: "filesystem \<Rightarrow> video list \<Rightarrow> pyexc + video set" where
  "unique_videos fs videos =
     (case unique_loop fs videos [] of
        Inl e \<Rightarrow> Inl e
      | Inr unique \<Rightarrow> Inr (set (map snd unique)))"

subsection \<open>The scan cache: get_videos\<close>

text \<open>
  \<^verbatim>\<open>ThreadPool(POOL_SIZE).map(function, iterable)\<close>, as
  \<^verbatim>\<open>multiprocessing/pool.py\<close> runs it.

  The size of a chunk of tasks, for a pool of \<open>POOL_SIZE\<close> workers and \<open>n\<close> items:
  \<^verbatim>\<open>
  chunksize, extra = divmod(len(iterable), len(self._pool) * 4)
  if extra:
      chunksize += 1
  if len(iterable) == 0:
      chunksize = 0
  \<close>
\<close>

definition chunk_size :: "int \<Rightarrow> nat \<Rightarrow> nat" where
  "chunk_size pool_size n =
     (if n = 0 then 0
      else if n mod (nat pool_size * 4) \<noteq> 0 then n div (nat pool_size * 4) + 1
      else n div (nat pool_size * 4))"

text \<open>
  \<^verbatim>\<open>Pool._get_tasks(func, it, size)\<close> cuts the items into chunks: each chunk is
  \<^verbatim>\<open>tuple(itertools.islice(it, size))\<close>, and the first empty chunk ends the
  sequence.
\<close>

function get_tasks :: "nat \<Rightarrow> 'a list \<Rightarrow> 'a list list" where
  "get_tasks chunksize it =
     (if chunksize = 0 \<or> it = [] then []
      else take chunksize it # get_tasks chunksize (drop chunksize it))"
  by pat_completeness auto
termination
  by (relation "measure (\<lambda>(chunksize, it). length it)") auto

text \<open>
  A worker runs one chunk as \<^verbatim>\<open>list(map(func, chunk))\<close>: the items in order,
  and the first exception ends the chunk, so the function is not called on the items
  after it. The result comes with the items the function was called on.
\<close>

fun mapstar :: "('a \<Rightarrow> pyexc + 'b) \<Rightarrow> 'a list \<Rightarrow> (pyexc + 'b list) \<times> 'a list" where
  "mapstar func [] = (Inr [], [])"
| "mapstar func (x # xs) =
     (case func x of
        Inl e \<Rightarrow> (Inl e, [x])
      | Inr y \<Rightarrow>
          (case mapstar func xs of
             (Inl e, called) \<Rightarrow> (Inl e, x # called)
           | (Inr ys, called) \<Rightarrow> (Inr (y # ys), x # called)))"

text \<open>
  The result of the map once every chunk is done: the results of the chunks in the order
  of the input, or an exception when a chunk raised. Which exception is raised when
  several chunks fail depends on the timing of the threads; the model takes the first in
  input order, and no theorem below depends on that choice.
\<close>

fun collect :: "(pyexc + 'b list) list \<Rightarrow> pyexc + 'b list" where
  "collect [] = Inr []"
| "collect (Inl e # rs) = Inl e"
| "collect (Inr ys # rs) =
     (case collect rs of Inl e \<Rightarrow> Inl e | Inr zs \<Rightarrow> Inr (ys @ zs))"

text \<open>
  \<^verbatim>\<open>def thread_map(function, iterable): return ThreadPool(POOL_SIZE).map(function, iterable)\<close>.
  \<^verbatim>\<open>ThreadPool(POOL_SIZE)\<close> raises \<^verbatim>\<open>ValueError\<close> for a pool size
  below 1, before any task runs. Otherwise every chunk runs. The second component is the
  list of the items the function was called on, chunk by chunk; the threads call it in
  some interleaving of the chunks, so only the multiset of this list is used.
  \<open>pool_size\<close> is the global \<^verbatim>\<open>POOL_SIZE\<close>, the value of
  \<^verbatim>\<open>--workers\<close>.
\<close>

definition thread_map ::
  "int \<Rightarrow> ('a \<Rightarrow> pyexc + 'b) \<Rightarrow> 'a list \<Rightarrow> (pyexc + 'b list) \<times> 'a list"
where
  "thread_map pool_size function iterable =
     (if pool_size < 1 then (Inl ValueError, [])
      else
        (let batches = get_tasks (chunk_size pool_size (length iterable)) iterable;
             results = map (mapstar function) batches
         in (collect (map fst results), concat (map snd results))))"

text \<open>
  The state \<^verbatim>\<open>get_videos\<close> works on: the shelve file
  \<^verbatim>\<open>.videos.cache.shelve\<close> as a map from keys to stored video sets, and the
  directories the scanner \<^verbatim>\<open>scan_videos\<close> has been called on, each as often
  as it was called.
\<close>

record scan_world =
  videos_cache :: "string \<rightharpoonup> video set"
  scanned :: "string multiset"

text \<open>
  \<^verbatim>\<open>
  def get_videos(dirs):
      videos_key = ' '.join(sorted(map(str, dirs)))
      with shelve.open('.videos.cache.shelve') as db:
          videos = db.get(videos_key)
      if videos:
          return videos
      videos = unique_videos(
          chain.from_iterable(thread_map(scan_videos, map(str, dirs))))
      with shelve.open('.videos.cache.shelve') as db:
          db[videos_key] = videos
      return videos
  \<close>
  \<^verbatim>\<open>if videos:\<close> is Python's truth test: \<^verbatim>\<open>None\<close> (no entry) and
  the empty set are both false. \<open>scan_videos\<close> is the external scanner and \<open>fs\<close>
  the filesystem; \<open>dirs\<close> are the directories in their string form. \<open>miss\<close> is
  the code after the \<^verbatim>\<open>if\<close>; \<open>w1\<close> is the state after the scans.
\<close>

definition get_videos ::
  "int \<Rightarrow> (string \<Rightarrow> pyexc + video list) \<Rightarrow> filesystem \<Rightarrow> string list \<Rightarrow> scan_world
     \<Rightarrow> (pyexc + video set) \<times> scan_world"
where
  "get_videos pool_size scan_videos fs dirs w =
     (let key = videos_key dirs;
          videos = videos_cache w key;
          miss =
            (case thread_map pool_size scan_videos dirs of
               (result, called) \<Rightarrow>
                 (let w1 = w\<lparr>scanned := scanned w + mset called\<rparr>
                  in case result of
                       Inl e \<Rightarrow> (Inl e, w1)
                     | Inr found \<Rightarrow>
                         (case unique_videos fs (concat found) of
                            Inl e \<Rightarrow> (Inl e, w1)
                          | Inr unique \<Rightarrow>
                              (Inr unique,
                               w1\<lparr>videos_cache := (videos_cache w1)(key \<mapsto> unique)\<rparr>))))
      in case videos of
           None \<Rightarrow> miss
         | Some stored \<Rightarrow> if stored \<noteq> {} then (Inr stored, w) else miss)"

subsection \<open>Python values of a metadata record\<close>

text \<open>
  The values the movie database puts into a record: \<^verbatim>\<open>None\<close>, integers,
  floats, strings, lists and dictionaries (a person of \<^verbatim>\<open>directors\<close> is read
  by \<^verbatim>\<open>d['name']\<close>). A float is modelled by the real number it denotes; NaN
  and the infinities are not modelled.
\<close>

datatype pyval =
    PNone
  | PInt int
  | PFloat real
  | PStr string
  | PList "pyval list"
  | PDict "(string \<times> pyval) list"

text \<open>Python's truth value of a value, as \<^verbatim>\<open>or\<close> and \<^verbatim>\<open>if\<close> test it.\<close>

fun truthy :: "pyval \<Rightarrow> bool" where
  "truthy PNone = False"
| "truthy (PInt i) = (i \<noteq> 0)"
| "truthy (PFloat r) = (r \<noteq> 0)"
| "truthy (PStr s) = (s \<noteq> [])"
| "truthy (PList xs) = (xs \<noteq> [])"
| "truthy (PDict kvs) = (kvs \<noteq> [])"

text \<open>\<^verbatim>\<open>a or b\<close>: \<open>a\<close> when it is true, else \<open>b\<close>.\<close>

definition py_or :: "pyval \<Rightarrow> pyval \<Rightarrow> pyval" where
  "py_or a b = (if truthy a then a else b)"

text \<open>
  \<^verbatim>\<open>v[:n]\<close>: a prefix of a string or of a list; any other value has no slices
  and the expression raises (no theorem below depends on the class of that exception).
\<close>

fun slice_to :: "nat \<Rightarrow> pyval \<Rightarrow> pyexc + pyval" where
  "slice_to n (PStr s) = Inr (PStr (take n s))"
| "slice_to n (PList xs) = Inr (PList (take n xs))"
| "slice_to n v = Inl TypeError"

text \<open>
  Iterating over a value: the items of a list, the characters of a string, the keys of a
  dictionary; any other value is not iterable.
\<close>

fun py_iter :: "pyval \<Rightarrow> pyexc + pyval list" where
  "py_iter (PList xs) = Inr xs"
| "py_iter (PStr s) = Inr (map (\<lambda>c. PStr [c]) s)"
| "py_iter (PDict kvs) = Inr (map (\<lambda>kv. PStr (fst kv)) kvs)"
| "py_iter v = Inl TypeError"

text \<open>\<^verbatim>\<open>d[key]\<close> for a string key.\<close>

fun subscript :: "pyval \<Rightarrow> string \<Rightarrow> pyexc + pyval" where
  "subscript (PDict kvs) key =
     (case map_of kvs key of None \<Rightarrow> Inl (KeyError key) | Some v \<Rightarrow> Inr v)"
| "subscript v key = Inl TypeError"

text \<open>
  A comprehension or a key function applied to the items in order: the first exception
  ends it.
\<close>

fun try_map :: "('a \<Rightarrow> pyexc + 'b) \<Rightarrow> 'a list \<Rightarrow> pyexc + 'b list" where
  "try_map f [] = Inr []"
| "try_map f (x # xs) =
     (case f x of
        Inl e \<Rightarrow> Inl e
      | Inr y \<Rightarrow> (case try_map f xs of Inl e \<Rightarrow> Inl e | Inr ys \<Rightarrow> Inr (y # ys)))"

fun expect_str :: "pyval \<Rightarrow> pyexc + string" where
  "expect_str (PStr s) = Inr s"
| "expect_str v = Inl TypeError"

text \<open>\<^verbatim>\<open>sep.join(items)\<close>: every item has to be a string.\<close>

definition str_join :: "string \<Rightarrow> pyval list \<Rightarrow> pyexc + pyval" where
  "str_join sep items =
     (case try_map expect_str items of
        Inl e \<Rightarrow> Inl e
      | Inr strs \<Rightarrow> Inr (PStr (join sep strs)))"

text \<open>
  A value inside an f-string: a string stands for itself and \<^verbatim>\<open>None\<close> is
  printed as \<^verbatim>\<open>None\<close>; \<open>str_other\<close> is Python's \<^verbatim>\<open>str\<close> on
  numbers, lists and dictionaries, which the model does not compute.
\<close>

definition format_value :: "(pyval \<Rightarrow> string) \<Rightarrow> pyval \<Rightarrow> string" where
  "format_value str_other v =
     (case v of PStr s \<Rightarrow> s | PNone \<Rightarrow> ''None'' | _ \<Rightarrow> str_other v)"

text \<open>The number of binary digits of a natural number: \<^verbatim>\<open>int.bit_length()\<close>.\<close>

fun bit_length :: "nat \<Rightarrow> nat" where
  "bit_length n = (if n = 0 then 0 else Suc (bit_length (n div 2)))"

declare bit_length.simps [simp del]

text \<open>
  \<^verbatim>\<open>float(i)\<close> for an integer. A float has 53 binary digits, so an integer up to
  \<open>2 ^ 53\<close> in absolute value is converted exactly. A larger one is rounded to 53
  digits, to the nearest float and on a tie to the one with an even last digit; when the
  rounded value reaches \<open>2 ^ 1024\<close> the conversion raises
  \<^verbatim>\<open>OverflowError\<close>.
\<close>

definition float_of_int :: "int \<Rightarrow> pyexc + real" where
  "float_of_int i =
     (if \<bar>i\<bar> \<le> 2 ^ 53 then Inr (real_of_int i)
      else
        (let a = nat \<bar>i\<bar>;
             shift = bit_length a - 53;
             q = a div 2 ^ shift;
             r = a mod 2 ^ shift;
             half = 2 ^ (shift - 1);
             m = (if half < r \<or> (r = half \<and> odd q) then q + 1 else q) * 2 ^ shift
         in if 2 ^ 1024 \<le> m then Inl OverflowError
            else Inr (if i < 0 then - real m else real m)))"

text \<open>
  \<^verbatim>\<open>float(v)\<close>. \<open>parse_float\<close> is Python's reading of a string as a
  finite float (\<open>None\<close> where it raises \<^verbatim>\<open>ValueError\<close>).
\<close>

definition to_float :: "(string \<Rightarrow> real option) \<Rightarrow> pyval \<Rightarrow> pyexc + real" where
  "to_float parse_float v =
     (case v of
        PInt i \<Rightarrow> float_of_int i
      | PFloat r \<Rightarrow> Inr r
      | PStr s \<Rightarrow> (case parse_float s of None \<Rightarrow> Inl ValueError | Some r \<Rightarrow> Inr r)
      | _ \<Rightarrow> Inl TypeError)"

subsection \<open>Metadata records and the metadata cache: search_movie\<close>

text \<open>
  A record of the movie database, as the program reads it: the attribute
  \<^verbatim>\<open>meta.movieID\<close> and a dictionary of fields behind
  \<^verbatim>\<open>meta[key]\<close> and \<^verbatim>\<open>meta.get(key)\<close>. The record class itself
  belongs to the database library.
\<close>

record movie =
  movieID :: string
  data :: "(string \<times> pyval) list"

text \<open>\<^verbatim>\<open>meta.get(key, failobj)\<close> and \<^verbatim>\<open>meta[key]\<close>.\<close>

definition meta_get :: "movie \<Rightarrow> string \<Rightarrow> pyval \<Rightarrow> pyval" where
  "meta_get meta key failobj = (case map_of (data meta) key of None \<Rightarrow> failobj | Some v \<Rightarrow> v)"

definition meta_getitem :: "movie \<Rightarrow> string \<Rightarrow> pyexc + pyval" where
  "meta_getitem meta key =
     (case map_of (data meta) key of None \<Rightarrow> Inl (KeyError key) | Some v \<Rightarrow> Inr v)"

text \<open>
  The remote movie database \<^verbatim>\<open>db\<close>: \<^verbatim>\<open>db.search_movie(title)\<close>
  returns a list of records or raises, \<^verbatim>\<open>db.get_movie(movieID)\<close> returns a
  record or raises.
\<close>

record imdb =
  db_search_movie :: "string \<Rightarrow> pyexc + movie list"
  db_get_movie :: "string \<Rightarrow> pyexc + movie"

datatype remote_call = SearchMovie string | GetMovie string

text \<open>
  The state \<^verbatim>\<open>search_movie\<close> works on: the shelve file
  \<^verbatim>\<open>.meta.cache.shelve\<close> and the log of the calls made to the remote
  database. The lock around each access of the shelve file has no effect on a single
  sequence of calls and is not modelled.
\<close>

record meta_world =
  meta_cache :: "string \<rightharpoonup> movie"
  remote_log :: "remote_call list"

text \<open>\<^verbatim>\<open>get_cached_meta(title)\<close>: \<^verbatim>\<open>db.get(str(title))\<close>.\<close>

definition get_cached_meta :: "string \<Rightarrow> meta_world \<Rightarrow> movie option" where
  "get_cached_meta query w = meta_cache w query"

text \<open>\<^verbatim>\<open>save_cached_meta(title, meta)\<close>: \<^verbatim>\<open>db[title] = meta\<close>.\<close>

definition save_cached_meta :: "string \<Rightarrow> movie \<Rightarrow> meta_world \<Rightarrow> meta_world" where
  "save_cached_meta query meta w = w\<lparr>meta_cache := (meta_cache w)(query \<mapsto> meta)\<rparr>"

text \<open>A call to the remote database is written to the log.\<close>

definition remote :: "remote_call \<Rightarrow> meta_world \<Rightarrow> meta_world" where
  "remote call w = w\<lparr>remote_log := remote_log w @ [call]\<rparr>"

text \<open>
  \<^verbatim>\<open>
  def search_movie(db, title):
      meta = get_cached_meta(title)
      if meta:
          return meta
      try:
          search_result = db.search_movie(title)
      except Exception:
          return None
      if not search_result:
          return None
      meta = search_result[0]
      try:
          movie = db.get_movie(meta.movieID)
      except Exception:
          return None
      save_cached_meta(title, movie)
      return movie
  \<close>
  The argument \<^verbatim>\<open>title\<close> is \<open>query\<close> here. \<open>movie_bool\<close> is the truth
  value of a record of the database library in \<^verbatim>\<open>if meta:\<close>; it is decided by
  the record class, which is not part of the source. The result \<open>None\<close> is Python's
  \<^verbatim>\<open>None\<close>; \<open>fetch\<close> is the code after the first \<^verbatim>\<open>if\<close>.
\<close>

definition search_movie ::
  "(movie \<Rightarrow> bool) \<Rightarrow> imdb \<Rightarrow> string \<Rightarrow> meta_world \<Rightarrow> movie option \<times> meta_world"
where
  "search_movie movie_bool db query w =
     (let fetch =
        (let w1 = remote (SearchMovie query) w in
         case db_search_movie db query of
           Inl e \<Rightarrow> (None, w1)
         | Inr search_result \<Rightarrow>
             (case search_result of
                [] \<Rightarrow> (None, w1)
              | meta # _ \<Rightarrow>
                  (let w2 = remote (GetMovie (movieID meta)) w1 in
                   case db_get_movie db (movieID meta) of
                     Inl e \<Rightarrow> (None, w2)
                   | Inr movie \<Rightarrow> (Some movie, save_cached_meta query movie w2))))
      in case get_cached_meta query w of
           None \<Rightarrow> fetch
         | Some meta \<Rightarrow> if movie_bool meta then (Some meta, w) else fetch)"

subsection \<open>The presenter: print_metadata\<close>

text \<open>\<^verbatim>\<open>video.year\<close> as a Python value.\<close>

definition video_year :: "video \<Rightarrow> pyval" where
  "video_year video = (case year video of None \<Rightarrow> PNone | Some y \<Rightarrow> PInt y)"

text \<open>\<^verbatim>\<open>'year': meta.get('year') or video.year or ''\<close>\<close>

definition entry_year :: "video \<Rightarrow> movie \<Rightarrow> pyval" where
  "entry_year video meta =
     py_or (meta_get meta ''year'' PNone) (py_or (video_year video) (PStr ''''))"

text \<open>
  \<^verbatim>\<open>'directors': ' '.join(d['name'] for d in meta.get('directors') or [])\<close>
\<close>

definition entry_directors :: "movie \<Rightarrow> pyexc + pyval" where
  "entry_directors meta =
     (case py_iter (py_or (meta_get meta ''directors'' PNone) (PList [])) of
        Inl e \<Rightarrow> Inl e
      | Inr ds \<Rightarrow>
          (case try_map (\<lambda>d. subscript d ''name'') ds of
             Inl e \<Rightarrow> Inl e
           | Inr names \<Rightarrow> str_join '' '' names))"

text \<open>\<^verbatim>\<open>'country': ' '.join(meta.get('countries') or [])\<close>\<close>

definition entry_country :: "movie \<Rightarrow> pyexc + pyval" where
  "entry_country meta =
     (case py_iter (py_or (meta_get meta ''countries'' PNone) (PList [])) of
        Inl e \<Rightarrow> Inl e
      | Inr cs \<Rightarrow> str_join '' '' cs)"

text \<open>
  \<^verbatim>\<open>'summary': meta.get('plot outline') or meta.get('plot', '')[:300]\<close>.
  The right operand of \<^verbatim>\<open>or\<close> is evaluated only when the left one is false.
\<close>

definition entry_summary :: "movie \<Rightarrow> pyexc + pyval" where
  "entry_summary meta =
     (let outline = meta_get meta ''plot outline'' PNone
      in if truthy outline then Inr outline
         else slice_to 300 (meta_get meta ''plot'' (PStr '''')))"

text \<open>The dictionary appended to \<^verbatim>\<open>entries\<close> for one pair of the input.\<close>

record entry =
  e_title :: pyval
  e_year :: pyval
  e_url :: pyval
  e_path :: pyval
  e_img_url :: pyval
  e_rating :: pyval
  e_directors :: pyval
  e_country :: pyval
  e_summary :: pyval

text \<open>
  The body of the loop of \<^verbatim>\<open>print_metadata\<close>:
  \<^verbatim>\<open>
  title = meta['title']
  url = f'https://www.imdb.com/title/tt{meta.movieID}'
  img_url = meta.get('cover url')
  entries.append({
      'title': f"[{title}]({url})",
      'year': meta.get('year') or video.year or '',
      'url': url,
      'path': f'[path]({video.name})',
      'img_url': f"![]({img_url})",
      'rating': meta.get('rating'),
      'directors': ' '.join(d['name'] for d in meta.get('directors') or []),
      'country': ' '.join(meta.get('countries') or []),
      'summary': meta.get('plot outline') or meta.get('plot', '')[:300],
  })
  \<close>
  The values are computed in this order, so the first exception is that of the title,
  then of the directors, the country and the summary.
\<close>

definition make_entry :: "(pyval \<Rightarrow> string) \<Rightarrow> video \<Rightarrow> movie \<Rightarrow> pyexc + entry" where
  "make_entry str_other video meta =
     (case meta_getitem meta ''title'' of
        Inl e \<Rightarrow> Inl e
      | Inr title_value \<Rightarrow>
          (let url = ''https://www.imdb.com/title/tt'' @ movieID meta;
               img_url = meta_get meta ''cover url'' PNone
           in case entry_directors meta of
                Inl e \<Rightarrow> Inl e
              | Inr directors \<Rightarrow>
                  (case entry_country meta of
                     Inl e \<Rightarrow> Inl e
                   | Inr country \<Rightarrow>
                       (case entry_summary meta of
                          Inl e \<Rightarrow> Inl e
                        | Inr summary \<Rightarrow>
                            Inr \<lparr>e_title = PStr (''['' @ format_value str_other title_value
                                                  @ '']('' @ url @ '')''),
                                 e_year = entry_year video meta,
                                 e_url = PStr url,
                                 e_path = PStr (''[path]('' @ name video @ '')''),
                                 e_img_url = PStr (''![]('' @ format_value str_other img_url @ '')''),
                                 e_rating = meta_get meta ''rating'' PNone,
                                 e_directors = directors,
                                 e_country = country,
                                 e_summary = summary\<rparr>))))"

text \<open>
  \<^verbatim>\<open>[e.get(h) for h in headers]\<close> with the headers
  \<^verbatim>\<open>img_url, title, year, country, directors, rating, summary, path\<close>.
\<close>

definition table_row :: "entry \<Rightarrow> pyval list" where
  "table_row e =
     [e_img_url e, e_title e, e_year e, e_country e, e_directors e, e_rating e, e_summary e,
      e_path e]"

text \<open>
  \<^verbatim>\<open>print_metadata(metadata)\<close> up to the table it hands to
  \<^verbatim>\<open>tabulate\<close>: one row for each pair, in the order of the input.
\<close>

definition print_metadata ::
  "(pyval \<Rightarrow> string) \<Rightarrow> (video \<times> movie) list \<Rightarrow> pyexc + pyval list list"
where
  "print_metadata str_other metadata =
     (case try_map (\<lambda>(video, meta). make_entry str_other video meta) metadata of
        Inl e \<Rightarrow> Inl e
      | Inr entries \<Rightarrow> Inr (map table_row entries))"

subsection \<open>The report of the main program\<close>

text \<open>
  \<^verbatim>\<open>key=lambda e: float(e[1].get('rating') or 0)\<close>
\<close>

definition rating_key :: "(string \<Rightarrow> real option) \<Rightarrow> video \<times> movie \<Rightarrow> pyexc + real" where
  "rating_key parse_float e =
     to_float parse_float (py_or (meta_get (snd e) ''rating'' PNone) (PInt 0))"

text \<open>
  \<^verbatim>\<open>sorted(xs, key=key, reverse=True)\<close>: the keys are computed once, in the
  order of the input; the list is reversed, sorted by a stable sort on the keys, and
  reversed again.
\<close>

definition sorted_reverse :: "('a \<Rightarrow> pyexc + real) \<Rightarrow> 'a list \<Rightarrow> pyexc + 'a list" where
  "sorted_reverse key xs =
     (case try_map key xs of
        Inl e \<Rightarrow> Inl e
      | Inr keys \<Rightarrow> Inr (map snd (rev (sort_key fst (rev (zip keys xs))))))"

text \<open>
  \<^verbatim>\<open>
  metadata = sorted(
      get_imdb_metadata(videos),
      key=lambda e: float(e[1].get('rating') or 0),
      reverse=True,
  )
  \<close>
  \<open>found\<close> is the list of pairs that \<^verbatim>\<open>get_imdb_metadata(videos)\<close> yields.
\<close>

definition sorted_metadata ::
  "(string \<Rightarrow> real option) \<Rightarrow> (video \<times> movie) list \<Rightarrow> pyexc + (video \<times> movie) list"
where
  "sorted_metadata parse_float found = sorted_reverse (rating_key parse_float) found"

text \<open>
  \<^verbatim>\<open>
  if args.metadata:
      metadata = sorted(...)
      print_metadata(metadata)
  \<close>
  The result is the table that is printed, or \<open>None\<close> when nothing is printed.
\<close>

definition report ::
  "(string \<Rightarrow> real option) \<Rightarrow> (pyval \<Rightarrow> string) \<Rightarrow> bool \<Rightarrow> (video \<times> movie) list
     \<Rightarrow> pyexc + pyval list list option"
where
  "report parse_float str_other metadata_flag found =
     (if metadata_flag then
        (case sorted_metadata parse_float found of
           Inl e \<Rightarrow> Inl e
         | Inr metadata \<Rightarrow>
             (case print_metadata str_other metadata of
                Inl e \<Rightarrow> Inl e
              | Inr table \<Rightarrow> Inr (Some table)))
      else Inr None)"

subsection \<open>Predicates of the properties\<close>

text \<open>Both files can be read and \<open>v\<close> is not larger than \<open>u\<close>.\<close>

definition size_le :: "filesystem \<Rightarrow> video \<Rightarrow> video \<Rightarrow> bool" where
  "size_le fs v u \<longleftrightarrow>
     (case (fs (name v), fs (name u)) of
        (Some sv, Some su) \<Rightarrow> sv \<le> su
      | _ \<Rightarrow> False)"

definition dominated :: "filesystem \<Rightarrow> video \<Rightarrow> video \<Rightarrow> bool" where
  "dominated fs v u \<longleftrightarrow> v = u \<or> size_le fs v u"

text \<open>
  Later lookups, each with its own database behaviour and query, run one after the
  other on the state.
\<close>

fun search_all :: "(movie \<Rightarrow> bool) \<Rightarrow> (imdb \<times> string) list \<Rightarrow> meta_world \<Rightarrow> meta_world" where
  "search_all movie_bool [] w = w"
| "search_all movie_bool ((db, query) # calls) w =
     search_all movie_bool calls (snd (search_movie movie_bool db query w))"

text \<open>
  The three failures of a fetch: the remote search raises, it returns no result, or the
  detail fetch for the first result raises.
\<close>

definition fetch_fails :: "imdb \<Rightarrow> string \<Rightarrow> bool" where
  "fetch_fails db query \<longleftrightarrow>
     (case db_search_movie db query of
        Inl e \<Rightarrow> True
      | Inr [] \<Rightarrow> True
      | Inr (meta # _) \<Rightarrow> (case db_get_movie db (movieID meta) of Inl e \<Rightarrow> True | Inr _ \<Rightarrow> False))"

text \<open>
  The metadata cache has no usable record for the query: no entry, or an entry that is
  false in \<^verbatim>\<open>if meta:\<close>. Only then does \<^verbatim>\<open>search_movie\<close> call the
  remote database.
\<close>

definition cache_miss :: "(movie \<Rightarrow> bool) \<Rightarrow> string \<Rightarrow> meta_world \<Rightarrow> bool" where
  "cache_miss movie_bool query w \<longleftrightarrow>
     (case meta_cache w query of None \<Rightarrow> True | Some meta \<Rightarrow> \<not> movie_bool meta)"

text \<open>The record has no field of this name.\<close>

definition absent :: "movie \<Rightarrow> string \<Rightarrow> bool" where
  "absent meta key \<longleftrightarrow> map_of (data meta) key = None"

text \<open>Both rating keys can be computed and the one of \<open>a\<close> is not below that of \<open>b\<close>.\<close>

definition rating_ge :: "(string \<Rightarrow> real option) \<Rightarrow> video \<times> movie \<Rightarrow> video \<times> movie \<Rightarrow> bool" where
  "rating_ge parse_float a b \<longleftrightarrow>
     (case (rating_key parse_float a, rating_key parse_float b) of
        (Inr ra, Inr rb) \<Rightarrow> rb \<le> ra
      | _ \<Rightarrow> False)"

section \<open>Properties\<close>

subsection \<open>The scan cache key\<close>

lemma sort_mset_cong:
  fixes xs ys :: "'a::linorder list"
  assumes "mset xs = mset ys"
  shows "sort xs = sort ys"
proof (rule properties_for_sort)
  show "mset (sort ys) = mset xs" using assms by simp
  show "sorted (sort ys)" by simp
qed

text \<open>
  C5. The key derivation does not depend on the order of the directory list: two lists
  that are permutations of each other (equal as multisets) get the same key, the key is
  the sorted path strings joined by one space, and \<^verbatim>\<open>get_videos\<close> reads the
  same slot of the scan cache for both.
\<close>

theorem videos_key_order_independent:
  assumes "mset dirs1 = mset dirs2"
  shows "videos_key dirs1 = videos_key dirs2
       \<and> videos_key dirs1 = join '' '' (sort dirs1)
       \<and> sorted (sort dirs1) \<and> mset (sort dirs1) = mset dirs1
       \<and> videos_cache w (videos_key dirs1) = videos_cache w (videos_key dirs2)"
proof -
  have "sort dirs1 = sort dirs2" by (rule sort_mset_cong [OF assms])
  then have "videos_key dirs1 = videos_key dirs2" by (simp add: videos_key_def)
  then show ?thesis by (simp add: videos_key_def)
qed

theorem videos_key_order_independent_witness:
  "mset [''/b'', ''/a''] = mset [''/a'', ''/b'']
   \<and> videos_key [''/b'', ''/a''] = videos_key [''/a'', ''/b'']
   \<and> videos_key [''/b'', ''/a''] = ''/a /b''"
proof -
  have h: "mset [''/b'', ''/a''] = mset [''/a'', ''/b'']" by simp
  have k: "videos_key [''/a'', ''/b''] = ''/a /b''"
    by (simp add: videos_key_def)
  from videos_key_order_independent
    [OF h, where w = "\<lparr>videos_cache = Map.empty, scanned = {#}\<rparr>"] h k
  show ?thesis by simp
qed

text \<open>
  C10. The key derivation is not injective: the one-directory list \<open>[''/a /b'']\<close>
  (a directory whose path contains a space) and the two-directory list
  \<open>[''/a'', ''/b'']\<close> are different lists, not permutations of each other, and have
  the same key \<open>''/a /b''\<close>. They share one cache entry: after
  \<^verbatim>\<open>get_videos\<close> has scanned the first list and stored its video, the call
  for the second list returns that video and scans nothing (pool size 10, the default of
  \<^verbatim>\<open>--workers\<close>).
\<close>

theorem videos_key_not_injective:
  "[''/a /b''] \<noteq> [''/a'', ''/b'']
   \<and> mset [''/a /b''] \<noteq> mset [''/a'', ''/b'']
   \<and> videos_key [''/a /b''] = ''/a /b''
   \<and> videos_key [''/a'', ''/b''] = ''/a /b''
   \<and> get_videos 10
        (\<lambda>d. if d = ''/a /b'' then Inr [\<lparr>title = ''T'', year = None, name = ''/a /b/t''\<rparr>]
             else Inr [])
        Map.empty [''/a /b''] \<lparr>videos_cache = Map.empty, scanned = {#}\<rparr>
     = (Inr {\<lparr>title = ''T'', year = None, name = ''/a /b/t''\<rparr>},
        \<lparr>videos_cache = [''/a /b'' \<mapsto> {\<lparr>title = ''T'', year = None, name = ''/a /b/t''\<rparr>}],
         scanned = {#''/a /b''#}\<rparr>)
   \<and> get_videos 10
        (\<lambda>d. if d = ''/a /b'' then Inr [\<lparr>title = ''T'', year = None, name = ''/a /b/t''\<rparr>]
             else Inr [])
        Map.empty [''/a'', ''/b'']
        \<lparr>videos_cache = [''/a /b'' \<mapsto> {\<lparr>title = ''T'', year = None, name = ''/a /b/t''\<rparr>}],
         scanned = {#''/a /b''#}\<rparr>
     = (Inr {\<lparr>title = ''T'', year = None, name = ''/a /b/t''\<rparr>},
        \<lparr>videos_cache = [''/a /b'' \<mapsto> {\<lparr>title = ''T'', year = None, name = ''/a /b/t''\<rparr>}],
         scanned = {#''/a /b''#}\<rparr>)"
proof -
  have k1: "videos_key [''/a /b''] = ''/a /b''" and k2: "videos_key [''/a'', ''/b''] = ''/a /b''"
    by (simp_all add: videos_key_def)
  show ?thesis
    by (simp add: k1 k2 get_videos_def unique_videos_def thread_map_def chunk_size_def Let_def)
qed

subsection \<open>Deduplication by title\<close>

lemma size_le_trans: "size_le fs a b \<Longrightarrow> size_le fs b c \<Longrightarrow> size_le fs a c"
  by (auto simp: size_le_def split: option.splits)

lemma max_by_size_Inr:
  assumes "max_by_size fs video other = Inr m"
  shows "(m = video \<or> m = other) \<and> size_le fs video m \<and> size_le fs other m"
  using assms
  by (auto simp: max_by_size_def video_size_def size_le_def split: option.splits if_splits)

lemma max_by_size_total:
  assumes "fs (name video) \<noteq> None" "fs (name other) \<noteq> None"
  shows "\<exists>m. max_by_size fs video other = Inr m"
  using assms by (auto simp: max_by_size_def video_size_def)

lemma dominated_refl: "dominated fs v v" by (simp add: dominated_def)
lemma dominated_trans: "dominated fs a b \<Longrightarrow> dominated fs b c \<Longrightarrow> dominated fs a c"
  by (auto simp: dominated_def intro: size_le_trans)

lemma unique_loop_dominates:
  assumes "unique_loop fs videos unique = Inr unique'"
  shows "(\<forall>k w. map_of unique k = Some w \<longrightarrow> (\<exists>u. map_of unique' k = Some u \<and> dominated fs w u))
       \<and> (\<forall>v\<in>set videos. \<exists>u. map_of unique' (title v) = Some u \<and> dominated fs v u)"
  using assms
proof (induction videos arbitrary: unique)
  case Nil
  then show ?case by (auto intro: dominated_refl)
next
  case (Cons video videos)
  obtain m where step: "unique_loop fs videos (AList.update (title video) m unique) = Inr unique'"
    and m: "map_of unique (title video) = None \<and> m = video
          \<or> (\<exists>other. map_of unique (title video) = Some other \<and> max_by_size fs video other = Inr m)"
    using Cons.prems by (auto split: option.splits sum.splits)
  let ?u1 = "AList.update (title video) m unique"
  note IH = Cons.IH [OF step]
  have new: "map_of ?u1 (title video) = Some m" by (simp add: update_conv')
  have dv: "dominated fs video m"
    using m max_by_size_Inr by (auto simp: dominated_def)
  have old: "\<exists>u. map_of ?u1 k = Some u \<and> dominated fs w u" if "map_of unique k = Some w" for k w
  proof (cases "k = title video")
    case True
    with that m have "max_by_size fs video w = Inr m" by auto
    then have "dominated fs w m" using max_by_size_Inr by (auto simp: dominated_def)
    with new True show ?thesis by auto
  next
    case False
    then show ?thesis using that by (auto simp: update_conv' intro: dominated_refl)
  qed
  have A: "\<exists>u. map_of unique' k = Some u \<and> dominated fs w u" if "map_of unique k = Some w" for k w
  proof -
    from old [OF that] obtain u1 where "map_of ?u1 k = Some u1" "dominated fs w u1" by auto
    with IH show ?thesis by (blast intro: dominated_trans)
  qed
  have B: "\<exists>u. map_of unique' (title video) = Some u \<and> dominated fs video u"
    using IH new dv by (blast intro: dominated_trans)
  from A B IH show ?case by auto
qed


lemma unique_loop_entries:
  assumes "unique_loop fs videos unique = Inr unique'"
    and "distinct (map fst unique)"
    and "\<forall>(k, u)\<in>set unique. title u = k \<and> u \<in> P"
  shows "distinct (map fst unique')
       \<and> (\<forall>(k, u)\<in>set unique'. title u = k \<and> u \<in> P \<union> set videos)"
  using assms
proof (induction videos arbitrary: unique P)
  case Nil
  then show ?case by auto
next
  case (Cons video videos)
  obtain m where step: "unique_loop fs videos (AList.update (title video) m unique) = Inr unique'"
    and m: "m = video \<or> (\<exists>other. map_of unique (title video) = Some other \<and> (m = video \<or> m = other))"
    using Cons.prems(1) max_by_size_Inr
    by (fastforce split: option.splits sum.splits)
  let ?u1 = "AList.update (title video) m unique"
  have tm: "title m = title video \<and> m \<in> insert video P"
    using m Cons.prems(3) by (auto dest!: map_of_SomeD)
  have d1: "distinct (map fst ?u1)" using Cons.prems(2) by (simp add: distinct_update)
  have "set ?u1 \<subseteq> insert (title video, m) (set unique)"
    by (induction unique) auto
  then have w1: "\<forall>(k, u)\<in>set ?u1. title u = k \<and> u \<in> insert video P"
    using Cons.prems(3) tm by auto
  from Cons.IH [OF step d1 w1] show ?case by auto
qed

lemma unique_loop_total:
  assumes "\<forall>v\<in>set videos. fs (name v) \<noteq> None"
    and "\<forall>(k, u)\<in>set unique. fs (name u) \<noteq> None"
  shows "\<exists>unique'. unique_loop fs videos unique = Inr unique'"
  using assms
proof (induction videos arbitrary: unique)
  case Nil
  then show ?case by simp
next
  case (Cons video videos)
  have upd: "\<forall>(k, u)\<in>set (AList.update (title video) m unique). fs (name u) \<noteq> None"
    if "fs (name m) \<noteq> None" for m
  proof -
    have "set (AList.update (title video) m unique) \<subseteq> insert (title video, m) (set unique)"
      by (induction unique) auto
    with that Cons.prems(2) show ?thesis by auto
  qed
  show ?case
  proof (cases "map_of unique (title video)")
    case None
    have "fs (name video) \<noteq> None" using Cons.prems(1) by simp
    from Cons.IH [OF _ upd [OF this]] Cons.prems(1) None show ?thesis by simp
  next
    case (Some other)
    then have "fs (name other) \<noteq> None"
      using Cons.prems(2) by (auto dest!: map_of_SomeD)
    moreover have v: "fs (name video) \<noteq> None" using Cons.prems(1) by simp
    ultimately obtain m where m: "max_by_size fs video other = Inr m"
      using max_by_size_total by blast
    then have "m = video \<or> m = other" using max_by_size_Inr by blast
    then have "fs (name m) \<noteq> None" using v \<open>fs (name other) \<noteq> None\<close> by auto
    from Cons.IH [OF _ upd [OF this]] Cons.prems(1) Some m show ?thesis by simp
  qed
qed

lemma update_fresh: "k \<notin> fst ` set al \<Longrightarrow> AList.update k v al = al @ [(k, v)]"
  by (induction al) auto

lemma unique_loop_fresh:
  assumes "distinct (map title videos)"
    and "title ` set videos \<inter> fst ` set unique = {}"
  shows "unique_loop fs videos unique = Inr (unique @ map (\<lambda>v. (title v, v)) videos)"
  using assms
proof (induction videos arbitrary: unique)
  case Nil
  then show ?case by simp
next
  case (Cons video videos)
  have fresh: "title video \<notin> fst ` set unique" using Cons.prems(2) by auto
  then have none: "map_of unique (title video) = None" by (simp add: map_of_eq_None_iff)
  have upd: "AList.update (title video) video unique = unique @ [(title video, video)]"
    using fresh by (rule update_fresh)
  have "title ` set videos \<inter> fst ` set (unique @ [(title video, video)]) = {}"
    using Cons.prems by auto
  with Cons.IH [of "unique @ [(title video, video)]"] Cons.prems(1) none upd
  show ?case by simp
qed

lemma unique_videos_props:
  assumes "unique_videos fs videos = Inr U"
  shows "U \<subseteq> set videos"
    and "inj_on title U"
    and "\<forall>v\<in>set videos. \<exists>u\<in>U. title u = title v \<and> dominated fs v u"
proof -
  from assms obtain unique where loop: "unique_loop fs videos [] = Inr unique"
    and U: "U = snd ` set unique"
    by (auto simp: unique_videos_def split: sum.splits)
  from unique_loop_entries [OF loop, of "{}"]
  have d: "distinct (map fst unique)"
    and wf0: "\<forall>(k, u)\<in>set unique. title u = k \<and> u \<in> set videos" by auto
  have wf: "title u = k \<and> u \<in> set videos" if "(k, u) \<in> set unique" for k u
    using wf0 that by blast
  show "U \<subseteq> set videos" using wf U by auto
  show "inj_on title U"
  proof (rule inj_onI)
    fix a b assume "a \<in> U" "b \<in> U" "title a = title b"
    then obtain ka kb where "(ka, a) \<in> set unique" "(kb, b) \<in> set unique" using U by auto
    moreover from this wf [of ka a] wf [of kb b] \<open>title a = title b\<close> have "ka = kb" by simp
    ultimately show "a = b" using d by (auto dest: eq_key_imp_eq_value)
  qed
  show "\<forall>v\<in>set videos. \<exists>u\<in>U. title u = title v \<and> dominated fs v u"
  proof
    fix v assume "v \<in> set videos"
    with unique_loop_dominates [OF loop]
    obtain u where u: "map_of unique (title v) = Some u" "dominated fs v u" by blast
    then have "(title v, u) \<in> set unique" by (auto dest: map_of_SomeD)
    with wf [of "title v" u] U u show "\<exists>u\<in>U. title u = title v \<and> dominated fs v u" by force
  qed
qed


lemma max_by_size_Inl:
  assumes "max_by_size fs video other = Inl e"
  shows "(e = OSError (name video) \<and> fs (name video) = None)
       \<or> (e = OSError (name other) \<and> fs (name other) = None)"
  using assms
  by (auto simp: max_by_size_def video_size_def split: option.splits)

lemma unique_loop_error:
  assumes "unique_loop fs videos unique = Inl e"
  shows "\<exists>v\<in>set videos \<union> snd ` set unique. e = OSError (name v) \<and> fs (name v) = None"
  using assms
proof (induction videos arbitrary: unique)
  case Nil
  then show ?case by simp
next
  case (Cons video videos)
  have upd: "snd ` set (AList.update (title video) m unique) \<subseteq> insert m (snd ` set unique)" for m
    by (induction unique) auto
  show ?case
  proof (cases "map_of unique (title video)")
    case None
    with Cons.prems
    have "unique_loop fs videos (AList.update (title video) video unique) = Inl e" by simp
    from Cons.IH [OF this] upd [of video] show ?thesis by auto
  next
    case (Some other)
    then have other: "other \<in> snd ` set unique" by (force dest: map_of_SomeD)
    show ?thesis
    proof (cases "max_by_size fs video other")
      case (Inl e')
      with Some Cons.prems have "e' = e" by simp
      with max_by_size_Inl [OF Inl] other show ?thesis by auto
    next
      case (Inr m)
      with Some Cons.prems
      have step: "unique_loop fs videos (AList.update (title video) m unique) = Inl e" by simp
      from max_by_size_Inr [OF Inr] have "m = video \<or> m = other" by simp
      with Cons.IH [OF step] upd [of m] other show ?thesis by auto
    qed
  qed
qed

lemma unique_videos_sound:
  "(\<forall>U. unique_videos fs videos = Inr U \<longrightarrow>
       U \<subseteq> set videos
       \<and> (\<forall>v\<in>set videos. \<exists>!u. u \<in> U \<and> title u = title v)
       \<and> (\<forall>u\<in>U. \<forall>v\<in>set videos. title v = title u \<longrightarrow> dominated fs v u))
   \<and> (\<forall>e. unique_videos fs videos = Inl e \<longrightarrow>
         (\<exists>v\<in>set videos. e = OSError (name v) \<and> fs (name v) = None))"
proof (intro conjI allI impI)
  fix U assume U: "unique_videos fs videos = Inr U"
  note sub = unique_videos_props(1) [OF U]
    and inj = unique_videos_props(2) [OF U]
    and dom = unique_videos_props(3) [OF U]
  show "U \<subseteq> set videos" by (rule sub)
  show "\<forall>v\<in>set videos. \<exists>!u. u \<in> U \<and> title u = title v"
  proof
    fix v assume "v \<in> set videos"
    with dom obtain u where u: "u \<in> U" "title u = title v" by blast
    have "y = u" if "y \<in> U \<and> title y = title v" for y
      using inj_onD [OF inj, of y u] that u by simp
    with u show "\<exists>!u. u \<in> U \<and> title u = title v" by blast
  qed
  show "\<forall>u\<in>U. \<forall>v\<in>set videos. title v = title u \<longrightarrow> dominated fs v u"
  proof (intro ballI impI)
    fix u v assume uv: "u \<in> U" "v \<in> set videos" "title v = title u"
    with dom obtain u' where u': "u' \<in> U" "title u' = title v" "dominated fs v u'" by blast
    with inj_onD [OF inj, of u' u] uv have "u' = u" by simp
    with u' show "dominated fs v u" by simp
  qed
next
  fix e assume "unique_videos fs videos = Inl e"
  then have "unique_loop fs videos [] = Inl e"
    by (auto simp: unique_videos_def split: sum.splits)
  from unique_loop_error [OF this]
  show "\<exists>v\<in>set videos. e = OSError (name v) \<and> fs (name v) = None" by simp
qed


text \<open>
  C2. Whenever \<^verbatim>\<open>unique_videos\<close> returns, its result \<open>U\<close> is a set of input
  descriptors with exactly one descriptor for each title of the input, and the descriptor
  kept for a title is the input descriptor itself or one whose file is at least as large
  (sizes as \<^verbatim>\<open>stat\<close> gives them at the comparison). It raises only the
  exception of a failed \<^verbatim>\<open>stat\<close> on the file of an input descriptor. When the
  file of every input descriptor can be read it returns, and the descriptor kept for a
  title is at least as large as every input descriptor of that title.
\<close>

theorem unique_videos_largest_per_title:
  "(\<forall>U. unique_videos fs videos = Inr U \<longrightarrow>
       U \<subseteq> set videos
       \<and> (\<forall>v\<in>set videos. \<exists>!u. u \<in> U \<and> title u = title v)
       \<and> (\<forall>u\<in>U. \<forall>v\<in>set videos. title v = title u \<longrightarrow> dominated fs v u))
   \<and> (\<forall>e. unique_videos fs videos = Inl e \<longrightarrow>
         (\<exists>v\<in>set videos. e = OSError (name v) \<and> fs (name v) = None))
   \<and> ((\<forall>v\<in>set videos. fs (name v) \<noteq> None) \<longrightarrow>
         (\<exists>U. unique_videos fs videos = Inr U
            \<and> (\<forall>u\<in>U. \<forall>v\<in>set videos. title v = title u \<longrightarrow>
                  (\<exists>sv su. video_size fs v = Inr sv \<and> video_size fs u = Inr su \<and> sv \<le> su))))"
proof -
  have total: "\<exists>U. unique_videos fs videos = Inr U
            \<and> (\<forall>u\<in>U. \<forall>v\<in>set videos. title v = title u \<longrightarrow>
                  (\<exists>sv su. video_size fs v = Inr sv \<and> video_size fs u = Inr su \<and> sv \<le> su))"
    if readable: "\<forall>v\<in>set videos. fs (name v) \<noteq> None"
  proof -
    from unique_loop_total [OF readable, of "[]"]
    obtain U where U: "unique_videos fs videos = Inr U"
      by (auto simp: unique_videos_def)
    from unique_videos_sound [of fs videos] U
    have sub: "U \<subseteq> set videos"
      and dom: "\<forall>u\<in>U. \<forall>v\<in>set videos. title v = title u \<longrightarrow> dominated fs v u"
      by blast+
    have "\<exists>sv su. video_size fs v = Inr sv \<and> video_size fs u = Inr su \<and> sv \<le> su"
      if "u \<in> U" "v \<in> set videos" "title v = title u" for u v
    proof -
      from dom that have d: "dominated fs v u" by blast
      from readable that sub obtain sv su
        where "fs (name v) = Some sv" "fs (name u) = Some su" by blast
      with d show ?thesis
        by (auto simp: dominated_def size_le_def video_size_def)
    qed
    then have "\<forall>u\<in>U. \<forall>v\<in>set videos. title v = title u \<longrightarrow>
                  (\<exists>sv su. video_size fs v = Inr sv \<and> video_size fs u = Inr su \<and> sv \<le> su)"
      by (intro ballI impI)
    with U show ?thesis by (intro exI [of _ U] conjI)
  qed
  from unique_videos_sound [of fs videos] total show ?thesis by (intro conjI impI) blast+
qed

theorem unique_videos_largest_per_title_witness:
  "[''/d/a10'' \<mapsto> 10::nat, ''/d/a20'' \<mapsto> 20] ''/d/a10'' \<noteq> None
   \<and> [''/d/a10'' \<mapsto> 10::nat, ''/d/a20'' \<mapsto> 20] ''/d/a20'' \<noteq> None
   \<and> unique_videos [''/d/a10'' \<mapsto> 10, ''/d/a20'' \<mapsto> 20]
        [\<lparr>title = ''A'', year = None, name = ''/d/a10''\<rparr>,
         \<lparr>title = ''A'', year = None, name = ''/d/a20''\<rparr>]
      = Inr {\<lparr>title = ''A'', year = None, name = ''/d/a20''\<rparr>}
   \<and> (\<exists>U. unique_videos [''/d/a10'' \<mapsto> 10, ''/d/a20'' \<mapsto> 20]
        [\<lparr>title = ''A'', year = None, name = ''/d/a10''\<rparr>,
         \<lparr>title = ''A'', year = None, name = ''/d/a20''\<rparr>] = Inr U
        \<and> (\<forall>u\<in>U. \<forall>v\<in>set [\<lparr>title = ''A'', year = None, name = ''/d/a10''\<rparr>,
               \<lparr>title = ''A'', year = None, name = ''/d/a20''\<rparr>]. title v = title u \<longrightarrow>
                 (\<exists>sv su. video_size [''/d/a10'' \<mapsto> 10, ''/d/a20'' \<mapsto> 20] v = Inr sv
                    \<and> video_size [''/d/a10'' \<mapsto> 10, ''/d/a20'' \<mapsto> 20] u = Inr su \<and> sv \<le> su)))"
proof -
  let ?fs = "[''/d/a10'' \<mapsto> 10, ''/d/a20'' \<mapsto> (20::nat)]"
  let ?vs = "[\<lparr>title = ''A'', year = None, name = ''/d/a10''\<rparr>,
              \<lparr>title = ''A'', year = None, name = ''/d/a20''\<rparr>]"
  have h: "\<forall>v\<in>set ?vs. ?fs (name v) \<noteq> None" by simp
  have h1: "?fs ''/d/a10'' \<noteq> None" and h2: "?fs ''/d/a20'' \<noteq> None" by simp_all
  have r: "unique_videos ?fs ?vs = Inr {\<lparr>title = ''A'', year = None, name = ''/d/a20''\<rparr>}"
    by (simp add: unique_videos_def max_by_size_def video_size_def)
  from unique_videos_largest_per_title [of ?fs ?vs] h
  have "\<exists>U. unique_videos ?fs ?vs = Inr U
        \<and> (\<forall>u\<in>U. \<forall>v\<in>set ?vs. title v = title u \<longrightarrow>
                 (\<exists>sv su. video_size ?fs v = Inr sv \<and> video_size ?fs u = Inr su \<and> sv \<le> su))"
    by blast
  with h1 h2 r show ?thesis by (intro conjI)
qed

text \<open>
  C6. \<^verbatim>\<open>unique_videos\<close> is idempotent: applied to the elements of its own
  result \<open>U\<close>, enumerated in any order, it returns \<open>U\<close> again, and \<open>U\<close>
  has one entry per title. The second pass compares no sizes, so this holds for any file
  sizes \<open>fs'\<close>, in particular for unchanged ones.
\<close>

theorem unique_videos_idempotent:
  assumes "unique_videos fs videos = Inr U"
    and "set elems = U" and "distinct elems"
  shows "unique_videos fs' elems = Inr U \<and> inj_on title U"
proof -
  note inj = unique_videos_props(2) [OF assms(1)]
  have "distinct (map title elems)"
    using assms(2,3) inj by (simp add: distinct_map)
  from unique_loop_fresh [OF this, of "[]" fs']
  have "unique_loop fs' elems [] = Inr (map (\<lambda>v. (title v, v)) elems)" by simp
  then have "unique_videos fs' elems = Inr (set elems)"
    by (simp add: unique_videos_def comp_def)
  with assms(2) inj show ?thesis by simp
qed

theorem unique_videos_idempotent_witness:
  "unique_videos [''/d/a10'' \<mapsto> 10, ''/d/a20'' \<mapsto> 20]
        [\<lparr>title = ''A'', year = None, name = ''/d/a10''\<rparr>,
         \<lparr>title = ''B'', year = None, name = ''/d/b''\<rparr>,
         \<lparr>title = ''A'', year = None, name = ''/d/a20''\<rparr>]
      = Inr {\<lparr>title = ''A'', year = None, name = ''/d/a20''\<rparr>,
             \<lparr>title = ''B'', year = None, name = ''/d/b''\<rparr>}
   \<and> unique_videos [''/d/a10'' \<mapsto> 10, ''/d/a20'' \<mapsto> 20]
        [\<lparr>title = ''B'', year = None, name = ''/d/b''\<rparr>,
         \<lparr>title = ''A'', year = None, name = ''/d/a20''\<rparr>]
      = Inr {\<lparr>title = ''A'', year = None, name = ''/d/a20''\<rparr>,
             \<lparr>title = ''B'', year = None, name = ''/d/b''\<rparr>}"
proof -
  let ?fs = "[''/d/a10'' \<mapsto> 10, ''/d/a20'' \<mapsto> (20::nat)]"
  let ?a20 = "\<lparr>title = ''A'', year = None, name = ''/d/a20''\<rparr>"
  let ?b = "\<lparr>title = ''B'', year = None, name = ''/d/b''\<rparr>"
  have r: "unique_videos ?fs [\<lparr>title = ''A'', year = None, name = ''/d/a10''\<rparr>, ?b, ?a20]
           = Inr {?a20, ?b}"
    by (simp add: unique_videos_def max_by_size_def video_size_def insert_commute)
  have s: "set [?b, ?a20] = {?a20, ?b}" by auto
  have d: "distinct [?b, ?a20]" by simp
  from unique_videos_idempotent [OF r s d, of ?fs] r show ?thesis by simp
qed

subsection \<open>The scan cache\<close>

text \<open>
  A stat failure during a comparison ends \<^verbatim>\<open>unique_videos\<close> with the
  exception: two descriptors of one title, the file of the first missing.
\<close>

lemma unique_videos_stat_failure:
  "unique_videos Map.empty
     [\<lparr>title = ''A'', year = None, name = ''/d/a1''\<rparr>,
      \<lparr>title = ''A'', year = None, name = ''/d/a2''\<rparr>] = Inl (OSError ''/d/a2'')"
  by (simp add: unique_videos_def max_by_size_def video_size_def)

text \<open>
  The thread pool: with a pool size of at least 1 and a function that succeeds on every
  item, the map returns the results in the order of the input and the function has been
  called on every item.
\<close>

lemma chunk_size_pos:
  assumes "1 \<le> pool_size" and "0 < n"
  shows "0 < chunk_size pool_size n"
proof -
  have "0 < nat pool_size * 4" using assms(1) by simp
  then show ?thesis
    using assms(2) by (auto simp: chunk_size_def)
qed

lemma mapstar_success:
  assumes "list_all2 (\<lambda>x y. func x = Inr y) xs ys"
  shows "mapstar func xs = (Inr ys, xs)"
  using assms by (induction rule: list_all2_induct) simp_all

lemma get_tasks_success:
  assumes "0 < chunksize" and "list_all2 (\<lambda>x y. func x = Inr y) xs ys"
  shows "collect (map fst (map (mapstar func) (get_tasks chunksize xs))) = Inr ys
       \<and> concat (map snd (map (mapstar func) (get_tasks chunksize xs))) = xs"
  using assms
proof (induction chunksize xs arbitrary: ys rule: get_tasks.induct)
  case (1 chunksize it)
  show ?case
  proof (cases "it = []")
    case True
    with "1.prems" show ?thesis by simp
  next
    case False
    have hd_ok: "list_all2 (\<lambda>x y. func x = Inr y) (take chunksize it) (take chunksize ys)"
      using "1.prems"(2) by (rule list_all2_takeI)
    have tl_ok: "list_all2 (\<lambda>x y. func x = Inr y) (drop chunksize it) (drop chunksize ys)"
      using "1.prems"(2) by (rule list_all2_dropI)
    from "1.IH" [OF _ "1.prems"(1) tl_ok] False "1.prems"(1)
    have IH: "collect (map fst (map (mapstar func) (get_tasks chunksize (drop chunksize it))))
                = Inr (drop chunksize ys)"
      "concat (map snd (map (mapstar func) (get_tasks chunksize (drop chunksize it))))
                = drop chunksize it"
      by simp_all
    have unf: "get_tasks chunksize it
               = take chunksize it # get_tasks chunksize (drop chunksize it)"
      using False "1.prems"(1) by (subst get_tasks.simps) simp
    show ?thesis
      unfolding unf using mapstar_success [OF hd_ok] IH by simp
  qed
qed

lemma thread_map_success:
  assumes "1 \<le> pool_size" and "list_all2 (\<lambda>x y. function x = Inr y) xs ys"
  shows "thread_map pool_size function xs = (Inr ys, xs)"
proof (cases "xs = []")
  case True
  with assms(2) have "ys = []" by simp
  with True assms(1) show ?thesis
    by (simp add: thread_map_def chunk_size_def)
next
  case False
  then have "0 < chunk_size pool_size (length xs)"
    using chunk_size_pos [OF assms(1)] by simp
  from get_tasks_success [OF this assms(2)] assms(1) show ?thesis
    by (simp add: thread_map_def Let_def)
qed

text \<open>
  A raising task ends its chunk: with one worker and five directories the chunks are of
  two items, and the scan of \<open>''/b''\<close>, which shares the chunk of the failing
  \<open>''/a''\<close>, never runs.
\<close>

lemma thread_map_chunk_abort:
  "thread_map 1 (\<lambda>d. if d = ''/a'' then Inl (ProviderError ''denied'') else Inr [d])
     [''/a'', ''/b'', ''/c'', ''/d'', ''/e'']
   = (Inl (ProviderError ''denied''), [''/a'', ''/c'', ''/d'', ''/e''])"
  by (simp add: thread_map_def chunk_size_def Let_def)

lemma get_videos_result_cached:
  assumes "get_videos pool_size scan_videos fs dirs w = (Inr videos, w')"
  shows "videos_cache w' (videos_key dirs) = Some videos"
  using assms
  by (auto simp: get_videos_def Let_def split: option.splits sum.splits if_splits prod.splits)

lemma get_videos_hit:
  assumes "videos_cache w (videos_key dirs) = Some stored" and "stored \<noteq> {}"
  shows "get_videos pool_size scan_videos fs dirs w = (Inr stored, w)"
  using assms by (simp add: get_videos_def Let_def)

lemma get_videos_miss:
  assumes "videos_cache w (videos_key dirs) = None \<or> videos_cache w (videos_key dirs) = Some {}"
    and "1 \<le> pool_size"
    and "list_all2 (\<lambda>d vs. scan_videos d = Inr vs) dirs found"
    and "unique_videos fs (concat found) = Inr unique"
  shows "get_videos pool_size scan_videos fs dirs w =
            (Inr unique,
             w\<lparr>scanned := scanned w + mset dirs,
               videos_cache := (videos_cache w)(videos_key dirs \<mapsto> unique)\<rparr>)"
  using assms(1,4) thread_map_success [OF assms(2,3)]
  by (auto simp: get_videos_def Let_def)

lemma get_videos_no_pool:
  assumes "videos_cache w (videos_key dirs) = None \<or> videos_cache w (videos_key dirs) = Some {}"
    and "pool_size < 1"
  shows "get_videos pool_size scan_videos fs dirs w = (Inl ValueError, w)"
  using assms by (auto simp: get_videos_def thread_map_def Let_def)

text \<open>
  The claim C1 as stated (a hit for every stored value) fails for a stored empty set:
  the key \<open>''/d''\<close> is present with the value \<open>{}\<close>, yet the scanner is called on
  \<open>''/d''\<close> and the result of the scan is stored and returned.
\<close>

theorem get_videos_empty_set_rescans:
  "videos_cache \<lparr>videos_cache = [''/d'' \<mapsto> {}], scanned = {#}\<rparr> (videos_key [''/d'']) = Some {}
   \<and> get_videos 10 (\<lambda>d. Inr [\<lparr>title = ''B'', year = None, name = ''/d/b''\<rparr>]) Map.empty [''/d'']
        \<lparr>videos_cache = [''/d'' \<mapsto> {}], scanned = {#}\<rparr>
     = (Inr {\<lparr>title = ''B'', year = None, name = ''/d/b''\<rparr>},
        \<lparr>videos_cache = [''/d'' \<mapsto> {\<lparr>title = ''B'', year = None, name = ''/d/b''\<rparr>}],
         scanned = {#''/d''#}\<rparr>)
   \<and> {\<lparr>title = ''B'', year = None, name = ''/d/b''\<rparr>} \<noteq> {}"
  by (simp add: get_videos_def videos_key_def unique_videos_def thread_map_def chunk_size_def
      Let_def)

text \<open>
  C1, amended. When the key of the directory list is present in the scan cache with a
  non-empty stored set, \<^verbatim>\<open>get_videos\<close> returns the stored set and leaves the
  state as it is: the scanner is not called and nothing is written. When the key is not
  present or the stored set is empty, and the pool size is at least 1, the scan of every
  directory succeeds and the deduplication succeeds, it has called the scanner on every
  directory of the list, stores the deduplicated result under the key and returns it.
  After a call has returned a non-empty set, a following call for the same directories in
  any order returns that set and scans nothing.
\<close>

theorem get_videos_hit_or_miss:
  "(videos_cache w (videos_key dirs) = Some stored \<and> stored \<noteq> {}
      \<longrightarrow> get_videos pool_size scan_videos fs dirs w = (Inr stored, w))
   \<and> ((videos_cache w (videos_key dirs) = None \<or> videos_cache w (videos_key dirs) = Some {})
        \<and> 1 \<le> pool_size
        \<and> list_all2 (\<lambda>d vs. scan_videos d = Inr vs) dirs found
        \<and> unique_videos fs (concat found) = Inr unique
      \<longrightarrow> get_videos pool_size scan_videos fs dirs w =
            (Inr unique,
             w\<lparr>scanned := scanned w + mset dirs,
               videos_cache := (videos_cache w)(videos_key dirs \<mapsto> unique)\<rparr>))
   \<and> (get_videos pool_size scan_videos fs dirs w = (Inr videos, w') \<and> videos \<noteq> {}
        \<and> mset dirs' = mset dirs
      \<longrightarrow> get_videos pool_size' scan_videos' fs' dirs' w' = (Inr videos, w'))"
proof (intro conjI impI)
  assume "videos_cache w (videos_key dirs) = Some stored \<and> stored \<noteq> {}"
  then show "get_videos pool_size scan_videos fs dirs w = (Inr stored, w)"
    using get_videos_hit by blast
next
  assume "(videos_cache w (videos_key dirs) = None \<or> videos_cache w (videos_key dirs) = Some {})
        \<and> 1 \<le> pool_size
        \<and> list_all2 (\<lambda>d vs. scan_videos d = Inr vs) dirs found
        \<and> unique_videos fs (concat found) = Inr unique"
  then show "get_videos pool_size scan_videos fs dirs w =
            (Inr unique,
             w\<lparr>scanned := scanned w + mset dirs,
               videos_cache := (videos_cache w)(videos_key dirs \<mapsto> unique)\<rparr>)"
    using get_videos_miss by blast
next
  assume a: "get_videos pool_size scan_videos fs dirs w = (Inr videos, w') \<and> videos \<noteq> {}
        \<and> mset dirs' = mset dirs"
  then have "videos_cache w' (videos_key dirs) = Some videos"
    using get_videos_result_cached by blast
  moreover have "sort dirs' = sort dirs"
    using a by (intro properties_for_sort) simp_all
  then have "videos_key dirs' = videos_key dirs" by (simp add: videos_key_def)
  ultimately show "get_videos pool_size' scan_videos' fs' dirs' w' = (Inr videos, w')"
    using a get_videos_hit [of w' dirs' videos pool_size' scan_videos' fs'] by simp
qed


theorem get_videos_hit_or_miss_witness:
  "get_videos 10 (\<lambda>d. Inr [\<lparr>title = ''B'', year = None, name = ''/d/b''\<rparr>]) Map.empty [''/d'']
        \<lparr>videos_cache = [''/d'' \<mapsto> {\<lparr>title = ''A'', year = None, name = ''/d/a''\<rparr>}],
         scanned = {#}\<rparr>
     = (Inr {\<lparr>title = ''A'', year = None, name = ''/d/a''\<rparr>},
        \<lparr>videos_cache = [''/d'' \<mapsto> {\<lparr>title = ''A'', year = None, name = ''/d/a''\<rparr>}],
         scanned = {#}\<rparr>)
   \<and> get_videos 10 (\<lambda>d. Inr [\<lparr>title = ''B'', year = None, name = ''/d/b''\<rparr>]) Map.empty [''/d'']
        \<lparr>videos_cache = Map.empty, scanned = {#}\<rparr>
     = (Inr {\<lparr>title = ''B'', year = None, name = ''/d/b''\<rparr>},
        \<lparr>videos_cache = [''/d'' \<mapsto> {\<lparr>title = ''B'', year = None, name = ''/d/b''\<rparr>}],
         scanned = {#''/d''#}\<rparr>)"
proof -
  let ?scan = "\<lambda>d::string. (Inr [\<lparr>title = ''B'', year = None, name = ''/d/b''\<rparr>] :: pyexc + video list)"
  let ?a = "\<lparr>title = ''A'', year = None, name = ''/d/a''\<rparr>"
  let ?b = "\<lparr>title = ''B'', year = None, name = ''/d/b''\<rparr>"
  let ?hit = "\<lparr>videos_cache = [''/d'' \<mapsto> {?a}], scanned = {#}\<rparr>"
  let ?empty = "\<lparr>videos_cache = Map.empty, scanned = ({#} :: string multiset)\<rparr>"
  have key: "videos_key [''/d''] = ''/d''" by (simp add: videos_key_def)
  have h1: "videos_cache ?hit (videos_key [''/d'']) = Some {?a} \<and> {?a} \<noteq> {}"
    by (simp add: key)
  have h2: "(videos_cache ?empty (videos_key [''/d'']) = None
              \<or> videos_cache ?empty (videos_key [''/d'']) = Some {})
            \<and> (1::int) \<le> 10
            \<and> list_all2 (\<lambda>d vs. ?scan d = Inr vs) [''/d''] [[?b]]
            \<and> unique_videos Map.empty (concat [[?b]]) = Inr {?b}"
    by (simp add: unique_videos_def)
  have hit: "get_videos 10 ?scan Map.empty [''/d''] ?hit = (Inr {?a}, ?hit)"
    using get_videos_hit_or_miss
      [where w = ?hit and dirs = "[''/d'']" and stored = "{?a}" and scan_videos = ?scan
        and fs = Map.empty and pool_size = 10]
      h1 by blast
  have miss: "get_videos 10 ?scan Map.empty [''/d''] ?empty
              = (Inr {?b}, ?empty\<lparr>scanned := scanned ?empty + mset [''/d''],
                   videos_cache := (videos_cache ?empty)(videos_key [''/d''] \<mapsto> {?b})\<rparr>)"
    using get_videos_hit_or_miss
      [where w = ?empty and dirs = "[''/d'']" and scan_videos = ?scan and fs = Map.empty
        and found = "[[?b]]" and unique = "{?b}" and pool_size = 10]
      h2 by blast
  from hit miss show ?thesis by (simp add: key)
qed

subsection \<open>The metadata cache\<close>

lemma search_movie_hit:
  assumes "meta_cache w query = Some m" and "movie_bool m"
  shows "search_movie movie_bool db query w = (Some m, w)"
  using assms by (simp add: search_movie_def get_cached_meta_def)

lemma search_movie_returns_cached:
  assumes "search_movie movie_bool db query w = (Some m, w1)"
  shows "meta_cache w1 query = Some m"
  using assms
  by (auto simp: search_movie_def get_cached_meta_def save_cached_meta_def remote_def Let_def
      split: option.splits sum.splits list.splits if_splits)

lemma search_movie_keeps_entry:
  assumes "meta_cache w query = Some m" and "movie_bool m"
  shows "meta_cache (snd (search_movie movie_bool db t w)) query = Some m"
proof (cases "t = query")
  case True
  then show ?thesis using search_movie_hit [of w query m movie_bool db] assms by simp
next
  case False
  then show ?thesis using assms(1)
    by (auto simp: search_movie_def get_cached_meta_def save_cached_meta_def remote_def Let_def
        split: option.splits sum.splits list.splits)
qed

lemma search_all_keeps_entry:
  assumes "meta_cache w query = Some m" and "movie_bool m"
  shows "meta_cache (search_all movie_bool calls w) query = Some m"
  using assms
proof (induction calls arbitrary: w)
  case Nil
  then show ?case by simp
next
  case (Cons c calls)
  obtain db t where c: "c = (db, t)" by (cases c)
  from Cons.prems have "meta_cache (snd (search_movie movie_bool db t w)) query = Some m"
    by (rule search_movie_keeps_entry)
  from Cons.IH [OF this Cons.prems(2)] c show ?case by simp
qed

text \<open>
  The claim C3 as stated (a hit after every stored record) fails for a stored record that
  is false in \<^verbatim>\<open>if meta:\<close>. Here a record is true when it has a title, as the
  records of the movie database library are, and the detail fetch returns a record
  without one. The first lookup returns the record and stores it under the query; the
  next lookup with the same query finds it in the cache, takes it for false and asks the
  remote database again: with the same database both remote calls are repeated, and with
  a database that is down the result is \<^verbatim>\<open>None\<close>, not the cached record.
\<close>

theorem search_movie_false_record_refetched:
  "search_movie (\<lambda>m. map_of (data m) ''title'' \<noteq> None)
      \<lparr>db_search_movie = (\<lambda>q. Inr [\<lparr>movieID = ''1'', data = []\<rparr>]),
       db_get_movie = (\<lambda>i. Inr \<lparr>movieID = ''1'', data = [(''year'', PInt 2010)]\<rparr>)\<rparr>
      ''X'' \<lparr>meta_cache = Map.empty, remote_log = []\<rparr>
    = (Some \<lparr>movieID = ''1'', data = [(''year'', PInt 2010)]\<rparr>,
       \<lparr>meta_cache = [''X'' \<mapsto> \<lparr>movieID = ''1'', data = [(''year'', PInt 2010)]\<rparr>],
        remote_log = [SearchMovie ''X'', GetMovie ''1'']\<rparr>)
   \<and> search_movie (\<lambda>m. map_of (data m) ''title'' \<noteq> None)
      \<lparr>db_search_movie = (\<lambda>q. Inr [\<lparr>movieID = ''1'', data = []\<rparr>]),
       db_get_movie = (\<lambda>i. Inr \<lparr>movieID = ''1'', data = [(''year'', PInt 2010)]\<rparr>)\<rparr>
      ''X''
      \<lparr>meta_cache = [''X'' \<mapsto> \<lparr>movieID = ''1'', data = [(''year'', PInt 2010)]\<rparr>],
        remote_log = [SearchMovie ''X'', GetMovie ''1'']\<rparr>
    = (Some \<lparr>movieID = ''1'', data = [(''year'', PInt 2010)]\<rparr>,
       \<lparr>meta_cache = [''X'' \<mapsto> \<lparr>movieID = ''1'', data = [(''year'', PInt 2010)]\<rparr>],
        remote_log = [SearchMovie ''X'', GetMovie ''1'', SearchMovie ''X'', GetMovie ''1'']\<rparr>)
   \<and> search_movie (\<lambda>m. map_of (data m) ''title'' \<noteq> None)
      \<lparr>db_search_movie = (\<lambda>q. Inl (ProviderError ''offline'')),
       db_get_movie = (\<lambda>i. Inl (ProviderError ''offline''))\<rparr>
      ''X''
      \<lparr>meta_cache = [''X'' \<mapsto> \<lparr>movieID = ''1'', data = [(''year'', PInt 2010)]\<rparr>],
        remote_log = [SearchMovie ''X'', GetMovie ''1'']\<rparr>
    = (None,
       \<lparr>meta_cache = [''X'' \<mapsto> \<lparr>movieID = ''1'', data = [(''year'', PInt 2010)]\<rparr>],
        remote_log = [SearchMovie ''X'', GetMovie ''1'', SearchMovie ''X'']\<rparr>)"
  by (simp add: search_movie_def get_cached_meta_def save_cached_meta_def remote_def)

text \<open>
  C3, amended. After a lookup for a query has returned a record \<open>m\<close> that is true in
  \<^verbatim>\<open>if meta:\<close>, the record is in the metadata cache under the query, it stays
  there through any later lookups \<open>calls\<close>, and every later
  \<^verbatim>\<open>search_movie\<close> with the same query returns \<open>m\<close> and leaves the state
  as it is, whatever the remote database \<open>db'\<close> would answer: the log of remote calls
  does not grow, so neither the remote search nor the detail fetch is invoked.
\<close>

theorem search_movie_cached_after_success:
  assumes "search_movie movie_bool db query w = (Some m, w1)" and "movie_bool m"
  shows "meta_cache (search_all movie_bool calls w1) query = Some m
       \<and> search_movie movie_bool db' query (search_all movie_bool calls w1)
           = (Some m, search_all movie_bool calls w1)"
proof -
  have "meta_cache w1 query = Some m" using assms(1) by (rule search_movie_returns_cached)
  then have "meta_cache (search_all movie_bool calls w1) query = Some m"
    using assms(2) by (rule search_all_keeps_entry)
  then show ?thesis
    using search_movie_hit [of "search_all movie_bool calls w1" query m movie_bool db'] assms(2)
    by simp
qed

theorem search_movie_cached_after_success_witness:
  "search_movie (\<lambda>m. True)
      \<lparr>db_search_movie = (\<lambda>q. Inr [\<lparr>movieID = ''1375666'', data = []\<rparr>]),
       db_get_movie = (\<lambda>i. Inr \<lparr>movieID = ''1375666'', data = [(''title'', PStr ''Inception'')]\<rparr>)\<rparr>
      ''Inception 2010'' \<lparr>meta_cache = Map.empty, remote_log = []\<rparr>
    = (Some \<lparr>movieID = ''1375666'', data = [(''title'', PStr ''Inception'')]\<rparr>,
       \<lparr>meta_cache = [''Inception 2010'' \<mapsto>
                        \<lparr>movieID = ''1375666'', data = [(''title'', PStr ''Inception'')]\<rparr>],
        remote_log = [SearchMovie ''Inception 2010'', GetMovie ''1375666'']\<rparr>)
   \<and> search_movie (\<lambda>m. True)
      \<lparr>db_search_movie = (\<lambda>q. Inl (ProviderError ''offline'')),
       db_get_movie = (\<lambda>i. Inl (ProviderError ''offline''))\<rparr>
      ''Inception 2010''
      \<lparr>meta_cache = [''Inception 2010'' \<mapsto>
                        \<lparr>movieID = ''1375666'', data = [(''title'', PStr ''Inception'')]\<rparr>],
        remote_log = [SearchMovie ''Inception 2010'', GetMovie ''1375666'']\<rparr>
    = (Some \<lparr>movieID = ''1375666'', data = [(''title'', PStr ''Inception'')]\<rparr>,
       \<lparr>meta_cache = [''Inception 2010'' \<mapsto>
                        \<lparr>movieID = ''1375666'', data = [(''title'', PStr ''Inception'')]\<rparr>],
        remote_log = [SearchMovie ''Inception 2010'', GetMovie ''1375666'']\<rparr>)"
proof -
  let ?mb = "\<lambda>m::movie. True"
  let ?m = "\<lparr>movieID = ''1375666'', data = [(''title'', PStr ''Inception'')]\<rparr>"
  let ?db = "\<lparr>db_search_movie = (\<lambda>q::string. (Inr [\<lparr>movieID = ''1375666'', data = []\<rparr>]
                                                   :: pyexc + movie list)),
              db_get_movie = (\<lambda>i::string. (Inr ?m :: pyexc + movie))\<rparr>"
  let ?off = "\<lparr>db_search_movie = (\<lambda>q::string. (Inl (ProviderError ''offline'')
                                                   :: pyexc + movie list)),
               db_get_movie = (\<lambda>i::string. (Inl (ProviderError ''offline'') :: pyexc + movie))\<rparr>"
  let ?w = "\<lparr>meta_cache = Map.empty, remote_log = []\<rparr>"
  let ?w1 = "\<lparr>meta_cache = [''Inception 2010'' \<mapsto> ?m],
              remote_log = [SearchMovie ''Inception 2010'', GetMovie ''1375666'']\<rparr>"
  have first: "search_movie ?mb ?db ''Inception 2010'' ?w = (Some ?m, ?w1)"
    by (simp add: search_movie_def get_cached_meta_def save_cached_meta_def remote_def)
  have "?mb ?m" by simp
  from search_movie_cached_after_success [OF first this, of "[]" ?off] first
  show ?thesis by simp
qed

lemma search_movie_miss_log:
  assumes "cache_miss movie_bool query w"
  shows "\<exists>rest. remote_log (snd (search_movie movie_bool db query w))
            = remote_log w @ SearchMovie query # rest"
  using assms
  by (auto simp: cache_miss_def search_movie_def get_cached_meta_def save_cached_meta_def
      remote_def Let_def split: option.splits sum.splits list.splits)

text \<open>
  C4. When a query has no usable record in the metadata cache (so that the remote
  database is asked) and the remote search raises, or returns no result, or the detail
  fetch raises, \<^verbatim>\<open>search_movie\<close> returns \<^verbatim>\<open>None\<close> (no exception
  leaves it), the metadata cache is what it was, and the remote search was invoked; a
  following call with the same query invokes the remote search again, whatever the
  database \<open>db'\<close> answers then.
\<close>

theorem search_movie_failure_not_cached:
  assumes "cache_miss movie_bool query w" and "fetch_fails db query"
  shows "fst (search_movie movie_bool db query w) = None
       \<and> meta_cache (snd (search_movie movie_bool db query w)) = meta_cache w
       \<and> (\<exists>rest. remote_log (snd (search_movie movie_bool db query w))
              = remote_log w @ SearchMovie query # rest)
       \<and> (\<exists>rest. remote_log (snd (search_movie movie_bool db' query
                                     (snd (search_movie movie_bool db query w))))
              = remote_log (snd (search_movie movie_bool db query w)) @ SearchMovie query # rest)"
proof -
  let ?w1 = "snd (search_movie movie_bool db query w)"
  have r: "fst (search_movie movie_bool db query w) = None \<and> meta_cache ?w1 = meta_cache w"
    using assms
    by (auto simp: cache_miss_def fetch_fails_def search_movie_def get_cached_meta_def
        remote_def Let_def split: option.splits sum.splits list.splits)
  then have "cache_miss movie_bool query ?w1" using assms(1) by (simp add: cache_miss_def)
  from search_movie_miss_log [OF this] search_movie_miss_log [OF assms(1)] r
  show ?thesis by blast
qed

theorem search_movie_failure_not_cached_witness:
  "cache_miss (\<lambda>m. True) ''Heat 1995'' \<lparr>meta_cache = Map.empty, remote_log = []\<rparr>
   \<and> fetch_fails
        \<lparr>db_search_movie = (\<lambda>q. Inr [\<lparr>movieID = ''0113277'', data = []\<rparr>]),
         db_get_movie = (\<lambda>i. Inl (ProviderError ''timeout''))\<rparr> ''Heat 1995''
   \<and> search_movie (\<lambda>m. True)
        \<lparr>db_search_movie = (\<lambda>q. Inr [\<lparr>movieID = ''0113277'', data = []\<rparr>]),
         db_get_movie = (\<lambda>i. Inl (ProviderError ''timeout''))\<rparr>
        ''Heat 1995'' \<lparr>meta_cache = Map.empty, remote_log = []\<rparr>
     = (None, \<lparr>meta_cache = Map.empty,
               remote_log = [SearchMovie ''Heat 1995'', GetMovie ''0113277'']\<rparr>)
   \<and> search_movie (\<lambda>m. True)
        \<lparr>db_search_movie = (\<lambda>q. Inr [\<lparr>movieID = ''0113277'', data = []\<rparr>]),
         db_get_movie = (\<lambda>i. Inl (ProviderError ''timeout''))\<rparr>
        ''Heat 1995''
        \<lparr>meta_cache = Map.empty, remote_log = [SearchMovie ''Heat 1995'', GetMovie ''0113277'']\<rparr>
     = (None, \<lparr>meta_cache = Map.empty,
               remote_log = [SearchMovie ''Heat 1995'', GetMovie ''0113277'',
                             SearchMovie ''Heat 1995'', GetMovie ''0113277'']\<rparr>)"
proof -
  let ?mb = "\<lambda>m::movie. True"
  let ?db = "\<lparr>db_search_movie = (\<lambda>q::string. (Inr [\<lparr>movieID = ''0113277'', data = []\<rparr>]
                                                   :: pyexc + movie list)),
              db_get_movie = (\<lambda>i::string. (Inl (ProviderError ''timeout'') :: pyexc + movie))\<rparr>"
  let ?w = "\<lparr>meta_cache = Map.empty, remote_log = []\<rparr>"
  have miss: "cache_miss ?mb ''Heat 1995'' ?w" by (simp add: cache_miss_def)
  have fails: "fetch_fails ?db ''Heat 1995''" by (simp add: fetch_fails_def)
  have run: "search_movie ?mb ?db ''Heat 1995'' ?w
             = (None, \<lparr>meta_cache = Map.empty,
                       remote_log = [SearchMovie ''Heat 1995'', GetMovie ''0113277'']\<rparr>)"
    using search_movie_failure_not_cached [OF miss fails, of ?db]
    by (simp add: search_movie_def get_cached_meta_def remote_def)
  have again: "search_movie ?mb ?db ''Heat 1995''
        \<lparr>meta_cache = Map.empty, remote_log = [SearchMovie ''Heat 1995'', GetMovie ''0113277'']\<rparr>
     = (None, \<lparr>meta_cache = Map.empty,
               remote_log = [SearchMovie ''Heat 1995'', GetMovie ''0113277'',
                             SearchMovie ''Heat 1995'', GetMovie ''0113277'']\<rparr>)"
    by (simp add: search_movie_def get_cached_meta_def remote_def)
  from miss fails run again show ?thesis by (intro conjI)
qed

subsection \<open>The presenter\<close>

lemma meta_get_absent: "absent meta key \<Longrightarrow> meta_get meta key failobj = failobj"
  by (simp add: absent_def meta_get_def)

lemma entry_summary_no_outline:
  "\<not> truthy (meta_get meta ''plot outline'' PNone)
     \<Longrightarrow> entry_summary meta = slice_to 300 (meta_get meta ''plot'' (PStr ''''))"
  by (simp add: entry_summary_def Let_def)

lemma make_entry_fields:
  assumes "make_entry str_other video meta = Inr e"
  shows "entry_summary meta = Inr (e_summary e)"
    and "entry_country meta = Inr (e_country e)"
    and "entry_directors meta = Inr (e_directors e)"
    and "e_year e = entry_year video meta"
    and "e_rating e = meta_get meta ''rating'' PNone"
  using assms
  by (auto simp: make_entry_def Let_def split: sum.splits)

lemma make_entry_succeeds_iff:
  "(\<exists>e. make_entry str_other video meta = Inr e) \<longleftrightarrow>
     \<not> absent meta ''title''
     \<and> (\<exists>d. entry_directors meta = Inr d)
     \<and> (\<exists>c. entry_country meta = Inr c)
     \<and> (\<exists>s. entry_summary meta = Inr s)"
  by (auto simp: make_entry_def meta_getitem_def absent_def Let_def split: sum.splits option.splits)

text \<open>
  The claim C8 as stated (the plot outline whenever one is present) fails for a record
  whose plot outline is present and empty: the summary cell of the printed row is the
  plot \<open>''abc''\<close>, not the outline \<open>''''\<close>.
\<close>

theorem summary_empty_outline_uses_plot:
  "map_of (data \<lparr>movieID = ''1'', data = [(''title'', PStr ''T''), (''plot outline'', PStr ''''),
                                         (''plot'', PStr ''abc'')]\<rparr>) ''plot outline''
     = Some (PStr '''')
   \<and> print_metadata (\<lambda>v. [])
        [(\<lparr>title = ''T'', year = None, name = ''/d/t''\<rparr>,
          \<lparr>movieID = ''1'', data = [(''title'', PStr ''T''), (''plot outline'', PStr ''''),
                                   (''plot'', PStr ''abc'')]\<rparr>)]
     = Inr [[PStr ''![](None)'', PStr ''[T](https://www.imdb.com/title/tt1)'', PStr '''',
             PStr '''', PStr '''', PNone, PStr ''abc'', PStr ''[path](/d/t)'']]
   \<and> PStr ''abc'' \<noteq> PStr ''''"
  by (simp add: print_metadata_def make_entry_def meta_getitem_def meta_get_def
      entry_directors_def entry_country_def entry_summary_def entry_year_def video_year_def
      py_or_def str_join_def format_value_def table_row_def Let_def)

text \<open>
  C8, amended. The summary of a record is its plot outline when one is present and true
  in Python's sense (for a string: not empty); otherwise it is the first 300 characters of
  the plot when the plot is a string (the first 300 items when it is a list); otherwise,
  with no plot field, it is the empty string. The summary field of the entry that
  \<^verbatim>\<open>print_metadata\<close> builds is this value.
\<close>

theorem summary_outline_then_plot:
  "(map_of (data meta) ''plot outline'' = Some outline \<and> truthy outline
      \<longrightarrow> entry_summary meta = Inr outline)
   \<and> (\<not> truthy (meta_get meta ''plot outline'' PNone)
        \<and> map_of (data meta) ''plot'' = Some (PStr plot)
      \<longrightarrow> entry_summary meta = Inr (PStr (take 300 plot)))
   \<and> (\<not> truthy (meta_get meta ''plot outline'' PNone)
        \<and> map_of (data meta) ''plot'' = Some (PList plots)
      \<longrightarrow> entry_summary meta = Inr (PList (take 300 plots)))
   \<and> (\<not> truthy (meta_get meta ''plot outline'' PNone)
        \<and> map_of (data meta) ''plot'' = None
      \<longrightarrow> entry_summary meta = Inr (PStr ''''))
   \<and> (make_entry str_other video meta = Inr e \<longrightarrow> entry_summary meta = Inr (e_summary e))"
proof (intro conjI impI)
  assume "map_of (data meta) ''plot outline'' = Some outline \<and> truthy outline"
  then show "entry_summary meta = Inr outline"
    by (simp add: entry_summary_def meta_get_def)
next
  assume "\<not> truthy (meta_get meta ''plot outline'' PNone)
          \<and> map_of (data meta) ''plot'' = Some (PStr plot)"
  then show "entry_summary meta = Inr (PStr (take 300 plot))"
    by (simp add: entry_summary_no_outline meta_get_def)
next
  assume "\<not> truthy (meta_get meta ''plot outline'' PNone)
          \<and> map_of (data meta) ''plot'' = Some (PList plots)"
  then show "entry_summary meta = Inr (PList (take 300 plots))"
    by (simp add: entry_summary_no_outline meta_get_def)
next
  assume "\<not> truthy (meta_get meta ''plot outline'' PNone)
          \<and> map_of (data meta) ''plot'' = None"
  then show "entry_summary meta = Inr (PStr '''')"
    by (simp add: entry_summary_no_outline meta_get_def)
next
  assume "make_entry str_other video meta = Inr e"
  then show "entry_summary meta = Inr (e_summary e)" by (rule make_entry_fields(1))
qed

theorem summary_outline_then_plot_witness:
  "entry_summary \<lparr>movieID = ''1'', data = [(''plot outline'', PStr ''short''),
                                         (''plot'', PStr ''long'')]\<rparr> = Inr (PStr ''short'')
   \<and> entry_summary \<lparr>movieID = ''1'', data = [(''plot'', PStr (replicate 500 CHR ''x''))]\<rparr>
       = Inr (PStr (replicate 300 CHR ''x''))
   \<and> entry_summary \<lparr>movieID = ''1'', data = []\<rparr> = Inr (PStr '''')"
proof -
  let ?m1 = "\<lparr>movieID = ''1'', data = [(''plot outline'', PStr ''short''), (''plot'', PStr ''long'')]\<rparr>"
  let ?m2 = "\<lparr>movieID = ''1'', data = [(''plot'', PStr (replicate 500 CHR ''x''))]\<rparr>"
  let ?m3 = "\<lparr>movieID = ''1'', data = ([] :: (string \<times> pyval) list)\<rparr>"
  have h1: "map_of (data ?m1) ''plot outline'' = Some (PStr ''short'') \<and> truthy (PStr ''short'')"
    by simp
  have h2: "\<not> truthy (meta_get ?m2 ''plot outline'' PNone)
            \<and> map_of (data ?m2) ''plot'' = Some (PStr (replicate 500 CHR ''x''))"
    by (simp add: meta_get_def)
  have h3: "\<not> truthy (meta_get ?m3 ''plot outline'' PNone) \<and> map_of (data ?m3) ''plot'' = None"
    by (simp add: meta_get_def)
  have 1: "entry_summary ?m1 = Inr (PStr ''short'')"
    using summary_outline_then_plot [where meta = ?m1 and outline = "PStr ''short''"] h1
    by blast
  have 2: "entry_summary ?m2 = Inr (PStr (take 300 (replicate 500 CHR ''x'')))"
    using summary_outline_then_plot [where meta = ?m2 and plot = "replicate 500 CHR ''x''"] h2
    by blast
  have 3: "entry_summary ?m3 = Inr (PStr '''')"
    using summary_outline_then_plot [where meta = ?m3] h3 by blast
  from 1 2 3 show ?thesis by simp
qed

text \<open>
  The claim C9 as stated (an empty or zero default for a missing year) fails for a record
  without a year whose video descriptor has the year 2010: the year cell of the printed
  row is 2010.
\<close>

theorem missing_year_takes_video_year:
  "absent \<lparr>movieID = ''1'', data = [(''title'', PStr ''T'')]\<rparr> ''year''
   \<and> print_metadata (\<lambda>v. [])
        [(\<lparr>title = ''T'', year = Some 2010, name = ''/d/t''\<rparr>,
          \<lparr>movieID = ''1'', data = [(''title'', PStr ''T'')]\<rparr>)]
     = Inr [[PStr ''![](None)'', PStr ''[T](https://www.imdb.com/title/tt1)'', PInt 2010,
             PStr '''', PStr '''', PNone, PStr '''', PStr ''[path](/d/t)'']]
   \<and> PInt 2010 \<noteq> PStr '''' \<and> PInt 2010 \<noteq> PInt 0"
  by (simp add: absent_def print_metadata_def make_entry_def meta_getitem_def meta_get_def
      entry_directors_def entry_country_def entry_summary_def entry_year_def video_year_def
      py_or_def str_join_def format_value_def table_row_def Let_def)

text \<open>
  C9, amended. For a missing year the presenter takes the year of the video descriptor
  when that is set and not zero, and the empty string otherwise; for missing countries
  and missing directors it takes the empty string; for a missing rating it takes
  \<^verbatim>\<open>None\<close>; for a missing plot (with no usable plot outline) it takes the empty
  summary. None of these computations raises when its field is absent, and building the
  entry raises only when the title is absent or one of the directors, country and summary
  computations raises; the entry holds the values of these computations.
\<close>

theorem missing_optional_fields_defaults:
  "(absent meta ''year'' \<longrightarrow>
      entry_year video meta =
        (case year video of
           None \<Rightarrow> PStr ''''
         | Some y \<Rightarrow> if y = 0 then PStr '''' else PInt y))
   \<and> (absent meta ''countries'' \<longrightarrow> entry_country meta = Inr (PStr ''''))
   \<and> (absent meta ''directors'' \<longrightarrow> entry_directors meta = Inr (PStr ''''))
   \<and> (absent meta ''rating'' \<longrightarrow> meta_get meta ''rating'' PNone = PNone)
   \<and> (absent meta ''plot'' \<and> \<not> truthy (meta_get meta ''plot outline'' PNone)
        \<longrightarrow> entry_summary meta = Inr (PStr ''''))
   \<and> (absent meta ''plot'' \<longrightarrow> (\<exists>s. entry_summary meta = Inr s))
   \<and> ((\<exists>e. make_entry str_other video meta = Inr e) \<longleftrightarrow>
         \<not> absent meta ''title''
         \<and> (\<exists>d. entry_directors meta = Inr d)
         \<and> (\<exists>c. entry_country meta = Inr c)
         \<and> (\<exists>s. entry_summary meta = Inr s))
   \<and> (make_entry str_other video meta = Inr e \<longrightarrow>
         e_year e = entry_year video meta
         \<and> e_rating e = meta_get meta ''rating'' PNone
         \<and> entry_country meta = Inr (e_country e)
         \<and> entry_directors meta = Inr (e_directors e)
         \<and> entry_summary meta = Inr (e_summary e))"
proof (intro conjI impI)
  assume "absent meta ''year''"
  then show "entry_year video meta =
        (case year video of
           None \<Rightarrow> PStr ''''
         | Some y \<Rightarrow> if y = 0 then PStr '''' else PInt y)"
    by (simp add: entry_year_def meta_get_absent py_or_def video_year_def split: option.splits)
next
  assume "absent meta ''countries''"
  then show "entry_country meta = Inr (PStr '''')"
    by (simp add: entry_country_def meta_get_absent py_or_def str_join_def)
next
  assume "absent meta ''directors''"
  then show "entry_directors meta = Inr (PStr '''')"
    by (simp add: entry_directors_def meta_get_absent py_or_def str_join_def)
next
  assume "absent meta ''rating''"
  then show "meta_get meta ''rating'' PNone = PNone" by (rule meta_get_absent)
next
  assume "absent meta ''plot'' \<and> \<not> truthy (meta_get meta ''plot outline'' PNone)"
  then show "entry_summary meta = Inr (PStr '''')"
    by (simp add: entry_summary_no_outline meta_get_absent)
next
  assume "absent meta ''plot''"
  then show "\<exists>s. entry_summary meta = Inr s"
    by (simp add: entry_summary_def meta_get_absent Let_def)
next
  show "(\<exists>e. make_entry str_other video meta = Inr e) \<longleftrightarrow>
         \<not> absent meta ''title''
         \<and> (\<exists>d. entry_directors meta = Inr d)
         \<and> (\<exists>c. entry_country meta = Inr c)
         \<and> (\<exists>s. entry_summary meta = Inr s)"
    by (rule make_entry_succeeds_iff)
next
  assume e: "make_entry str_other video meta = Inr e"
  show "e_year e = entry_year video meta" by (rule make_entry_fields(4) [OF e])
  show "e_rating e = meta_get meta ''rating'' PNone" by (rule make_entry_fields(5) [OF e])
  show "entry_country meta = Inr (e_country e)" by (rule make_entry_fields(2) [OF e])
  show "entry_directors meta = Inr (e_directors e)" by (rule make_entry_fields(3) [OF e])
  show "entry_summary meta = Inr (e_summary e)" by (rule make_entry_fields(1) [OF e])
qed

theorem missing_optional_fields_defaults_witness:
  "absent \<lparr>movieID = ''1'', data = [(''title'', PStr ''T'')]\<rparr> ''year''
   \<and> absent \<lparr>movieID = ''1'', data = [(''title'', PStr ''T'')]\<rparr> ''countries''
   \<and> absent \<lparr>movieID = ''1'', data = [(''title'', PStr ''T'')]\<rparr> ''directors''
   \<and> absent \<lparr>movieID = ''1'', data = [(''title'', PStr ''T'')]\<rparr> ''rating''
   \<and> absent \<lparr>movieID = ''1'', data = [(''title'', PStr ''T'')]\<rparr> ''plot''
   \<and> make_entry (\<lambda>v. []) \<lparr>title = ''T'', year = None, name = ''/d/t''\<rparr>
        \<lparr>movieID = ''1'', data = [(''title'', PStr ''T'')]\<rparr>
     = Inr \<lparr>e_title = PStr ''[T](https://www.imdb.com/title/tt1)'',
            e_year = PStr '''',
            e_url = PStr ''https://www.imdb.com/title/tt1'',
            e_path = PStr ''[path](/d/t)'',
            e_img_url = PStr ''![](None)'',
            e_rating = PNone,
            e_directors = PStr '''',
            e_country = PStr '''',
            e_summary = PStr ''''\<rparr>"
proof -
  let ?m = "\<lparr>movieID = ''1'', data = [(''title'', PStr ''T'')]\<rparr>"
  let ?v = "\<lparr>title = ''T'', year = None, name = ''/d/t''\<rparr>"
  have a: "absent ?m ''year''" "absent ?m ''countries''" "absent ?m ''directors''"
    "absent ?m ''rating''" "absent ?m ''plot''"
    by (simp_all add: absent_def)
  have o: "\<not> truthy (meta_get ?m ''plot outline'' PNone)" by (simp add: meta_get_def)
  note t = missing_optional_fields_defaults [where meta = ?m and video = ?v]
  have y: "entry_year ?v ?m = PStr ''''" using t a(1) by simp
  have c: "entry_country ?m = Inr (PStr '''')" using t a(2) by blast
  have d: "entry_directors ?m = Inr (PStr '''')" using t a(3) by blast
  have r: "meta_get ?m ''rating'' PNone = PNone" using t a(4) by blast
  have s: "entry_summary ?m = Inr (PStr '''')" using t a(5) o by blast
  have "make_entry (\<lambda>v. []) ?v ?m
     = Inr \<lparr>e_title = PStr ''[T](https://www.imdb.com/title/tt1)'',
            e_year = PStr '''',
            e_url = PStr ''https://www.imdb.com/title/tt1'',
            e_path = PStr ''[path](/d/t)'',
            e_img_url = PStr ''![](None)'',
            e_rating = PNone,
            e_directors = PStr '''',
            e_country = PStr '''',
            e_summary = PStr ''''\<rparr>"
    using y c d r s by (simp add: make_entry_def meta_getitem_def meta_get_def format_value_def)
  with a show ?thesis by (intro conjI)
qed

subsection \<open>The report\<close>

lemma try_map_all2:
  "try_map f xs = Inr ys \<Longrightarrow> list_all2 (\<lambda>x y. f x = Inr y) xs ys"
  by (induction xs arbitrary: ys) (auto split: sum.splits)

lemma try_map_total:
  "\<forall>x\<in>set xs. \<exists>y. f x = Inr y \<Longrightarrow> \<exists>ys. try_map f xs = Inr ys"
  by (induction xs) auto

lemma sorted_reverse_props:
  assumes "sorted_reverse key xs = Inr out"
  shows "mset out = mset xs"
    and "sorted_wrt (\<lambda>a b. \<exists>ka kb. key a = Inr ka \<and> key b = Inr kb \<and> kb \<le> ka) out"
proof -
  from assms obtain keys where keys: "try_map key xs = Inr keys"
    and out: "out = map snd (rev (sort_key fst (rev (zip keys xs))))"
    by (auto simp: sorted_reverse_def split: sum.splits)
  let ?ps = "rev (sort_key fst (rev (zip keys xs)))"
  from try_map_all2 [OF keys] have all2: "list_all2 (\<lambda>x k. key x = Inr k) xs keys" .
  then have len: "length keys = length xs" by (simp add: list_all2_lengthD)
  have pairs: "key x = Inr k" if "(k, x) \<in> set (zip keys xs)" for k x
    using all2 that by (auto simp: list_all2_iff in_set_zip)
  have "mset ?ps = mset (zip keys xs)" by simp
  then have "mset (map snd ?ps) = mset (map snd (zip keys xs))"
    by (metis mset_map)
  then show "mset out = mset xs" using len out by simp
  have "sorted (map fst (sort_key fst (rev (zip keys xs))))" by (rule sorted_sort_key)
  then have "sorted_wrt (\<lambda>p q. fst p \<le> fst q) (sort_key fst (rev (zip keys xs)))"
    by (simp add: sorted_map)
  then have desc: "sorted_wrt (\<lambda>p q. fst q \<le> fst p) ?ps"
    by (simp add: sorted_wrt_rev)
  have "sorted_wrt (\<lambda>p q. \<exists>ka kb. key (snd p) = Inr ka \<and> key (snd q) = Inr kb \<and> kb \<le> ka) ?ps"
  proof (rule sorted_wrt_mono_rel [OF _ desc])
    fix p q assume "p \<in> set ?ps" "q \<in> set ?ps" "fst q \<le> fst p"
    then have "(fst p, snd p) \<in> set (zip keys xs)" "(fst q, snd q) \<in> set (zip keys xs)"
      by simp_all
    then have "key (snd p) = Inr (fst p)" "key (snd q) = Inr (fst q)"
      using pairs [of "fst p" "snd p"] pairs [of "fst q" "snd q"] by blast+
    with \<open>fst q \<le> fst p\<close>
    show "\<exists>ka kb. key (snd p) = Inr ka \<and> key (snd q) = Inr kb \<and> kb \<le> ka" by simp
  qed
  then show "sorted_wrt (\<lambda>a b. \<exists>ka kb. key a = Inr ka \<and> key b = Inr kb \<and> kb \<le> ka) out"
    by (simp add: out sorted_wrt_map)
qed

lemma sorted_reverse_total:
  assumes "\<forall>x\<in>set xs. \<exists>k. key x = Inr k"
  shows "\<exists>out. sorted_reverse key xs = Inr out"
  using try_map_total [OF assms] by (auto simp: sorted_reverse_def)

text \<open>
  \<^verbatim>\<open>float\<close> on integers: exact up to \<open>2 ^ 53\<close>; \<open>2 ^ 53 + 1\<close> is rounded
  to \<open>2 ^ 53\<close>; \<open>2 ^ 1024\<close> raises \<^verbatim>\<open>OverflowError\<close>.
\<close>

lemma float_of_int_exact: "\<bar>i\<bar> \<le> 2 ^ 53 \<Longrightarrow> float_of_int i = Inr (real_of_int i)"
  by (simp add: float_of_int_def)

lemma bit_length_double: "0 < n \<Longrightarrow> bit_length (2 * n) = Suc (bit_length n)"
  by (subst bit_length.simps) simp

lemma bit_length_double_Suc: "0 < n \<Longrightarrow> bit_length (2 * n + 1) = Suc (bit_length n)"
  by (subst bit_length.simps) simp

lemma bit_length_1: "bit_length (Suc 0) = Suc 0"
  by (simp add: bit_length.simps [of "Suc 0"] bit_length.simps [of 0])

lemma bit_length_pow2: "bit_length (2 ^ k) = Suc k"
proof (induction k)
  case 0
  show ?case by (simp add: bit_length_1)
next
  case (Suc k)
  then show ?case using bit_length_double [of "2 ^ k"] by simp
qed

lemma bit_length_pow2_Suc: "0 < k \<Longrightarrow> bit_length (2 ^ k + 1) = Suc k"
proof -
  assume "0 < k"
  then obtain j where k: "k = Suc j" by (cases k) auto
  have "bit_length (2 * 2 ^ j + 1) = Suc (bit_length (2 ^ j))"
    by (rule bit_length_double_Suc) simp
  then show ?thesis by (simp add: k bit_length_pow2)
qed


lemma float_of_int_rounds: "float_of_int (2 ^ 53 + 1) = Inr (2 ^ 53)"
proof -
  have a: "nat \<bar>2 ^ 53 + 1 :: int\<bar> = 2 ^ 53 + 1"
    by (simp add: nat_add_distrib nat_power_eq)
  have b: "bit_length (2 ^ 53 + 1) = 54" using bit_length_pow2_Suc [of 53] by simp
  have big: "\<not> \<bar>2 ^ 53 + 1 :: int\<bar> \<le> 2 ^ 53" by simp
  have c: "(2 ^ 53 + 1) div 2 = (2 ^ 52 :: nat)" "(2 ^ 53 + 1) mod 2 = (1 :: nat)" by simp_all
  have m: "((if (1::nat) < 1 \<or> ((1::nat) = 1 \<and> odd (2 ^ 52 :: nat)) then 2 ^ 52 + 1 else 2 ^ 52) * 2 :: nat)
           = 2 ^ 53" by simp
  have fin: "\<not> (2 ^ 1024 :: nat) \<le> 2 ^ 53" by simp
  show ?thesis
    unfolding float_of_int_def Let_def a b
    using big c m fin by simp
qed

lemma float_of_int_overflow: "float_of_int (2 ^ 1024) = Inl OverflowError"
proof -
  have a: "nat \<bar>2 ^ 1024 :: int\<bar> = 2 ^ 1024" by (simp add: nat_power_eq)
  have b: "bit_length (2 ^ 1024) = 1025" using bit_length_pow2 [of 1024] by simp
  have big: "\<not> \<bar>2 ^ 1024 :: int\<bar> \<le> 2 ^ 53" by simp
  have c: "(2 ^ 1024 :: nat) div 2 ^ 972 = 2 ^ 52" "(2 ^ 1024 :: nat) mod 2 ^ 972 = 0"
    by simp_all
  have d: "(2 ^ 52 * 2 ^ 972 :: nat) = 2 ^ 1024" by simp
  show ?thesis
    unfolding float_of_int_def Let_def a b
    using big c d by simp
qed

lemma rating_key_absent: "absent (snd e) ''rating'' \<Longrightarrow> rating_key parse_float e = Inr 0"
  by (simp add: rating_key_def meta_get_absent py_or_def to_float_def float_of_int_exact)

lemma rating_key_float:
  "map_of (data (snd e)) ''rating'' = Some (PFloat r) \<Longrightarrow> rating_key parse_float e = Inr r"
  by (simp add: rating_key_def meta_get_def py_or_def to_float_def float_of_int_exact)

lemma rating_key_int:
  "map_of (data (snd e)) ''rating'' = Some (PInt i) \<Longrightarrow> \<bar>i\<bar> \<le> 2 ^ 53
     \<Longrightarrow> rating_key parse_float e = Inr (real_of_int i)"
  by (simp add: rating_key_def meta_get_def py_or_def to_float_def float_of_int_exact)

lemma print_metadata_rows:
  assumes "print_metadata str_other metadata = Inr table"
  shows "list_all2 (\<lambda>e row. \<exists>en. make_entry str_other (fst e) (snd e) = Inr en
                                 \<and> row = table_row en) metadata table"
proof -
  from assms obtain entries
    where en: "try_map (\<lambda>(video, meta). make_entry str_other video meta) metadata = Inr entries"
      and t: "table = map table_row entries"
    by (auto simp: print_metadata_def split: sum.splits)
  from try_map_all2 [OF en] show ?thesis
    unfolding t by (auto simp: list_all2_map2 case_prod_beta elim!: list_all2_mono)
qed

text \<open>
  C7. With the metadata flag set, and the rating key of every found pair computable (its
  rating is missing, false, a finite float, an integer that \<^verbatim>\<open>float\<close>
  converts, or a string that reads as a number), the entries of the report are a
  rearrangement of the found pairs, sorted by the rating key
  \<^verbatim>\<open>float(rating or 0)\<close> in descending order; the key of a float rating is
  that rating, the key of an integer rating up to \<open>2 ^ 53\<close> in absolute value is that
  integer, and the key of an entry without a rating is 0. The printed table has one row
  for each sorted entry, in the sorted order.
\<close>

theorem report_sorted_by_rating:
  assumes "\<forall>e\<in>set found. \<exists>r. rating_key parse_float e = Inr r"
  shows "\<exists>metadata. sorted_metadata parse_float found = Inr metadata
       \<and> mset metadata = mset found
       \<and> sorted_wrt (rating_ge parse_float) metadata
       \<and> (\<forall>e\<in>set metadata. absent (snd e) ''rating'' \<longrightarrow> rating_key parse_float e = Inr 0)
       \<and> (\<forall>e\<in>set metadata. \<forall>r. map_of (data (snd e)) ''rating'' = Some (PFloat r)
             \<longrightarrow> rating_key parse_float e = Inr r)
       \<and> (\<forall>e\<in>set metadata. \<forall>i. map_of (data (snd e)) ''rating'' = Some (PInt i)
             \<and> \<bar>i\<bar> \<le> 2 ^ 53
             \<longrightarrow> rating_key parse_float e = Inr (real_of_int i))
       \<and> report parse_float str_other True found
           = (case print_metadata str_other metadata of
                Inl e \<Rightarrow> Inl e
              | Inr table \<Rightarrow> Inr (Some table))
       \<and> (\<forall>table. print_metadata str_other metadata = Inr table \<longrightarrow>
             list_all2 (\<lambda>e row. \<exists>en. make_entry str_other (fst e) (snd e) = Inr en
                                    \<and> row = table_row en) metadata table)"
proof -
  from sorted_reverse_total [OF assms]
  obtain metadata where sr: "sorted_reverse (rating_key parse_float) found = Inr metadata"
    by blast
  then have 0: "sorted_metadata parse_float found = Inr metadata"
    by (simp add: sorted_metadata_def)
  have 1: "mset metadata = mset found" by (rule sorted_reverse_props(1) [OF sr])
  have "sorted_wrt (\<lambda>a b. \<exists>ka kb. rating_key parse_float a = Inr ka
            \<and> rating_key parse_float b = Inr kb \<and> kb \<le> ka) metadata"
    by (rule sorted_reverse_props(2) [OF sr])
  then have 2: "sorted_wrt (rating_ge parse_float) metadata"
    by (rule sorted_wrt_mono_rel [rotated]) (auto simp: rating_ge_def)
  have 3: "\<forall>e\<in>set metadata. absent (snd e) ''rating'' \<longrightarrow> rating_key parse_float e = Inr 0"
    by (simp add: rating_key_absent)
  have 4: "\<forall>e\<in>set metadata. \<forall>r. map_of (data (snd e)) ''rating'' = Some (PFloat r)
             \<longrightarrow> rating_key parse_float e = Inr r"
    by (simp add: rating_key_float)
  have ints: "\<forall>e\<in>set metadata. \<forall>i. map_of (data (snd e)) ''rating'' = Some (PInt i)
             \<and> \<bar>i\<bar> \<le> 2 ^ 53
             \<longrightarrow> rating_key parse_float e = Inr (real_of_int i)"
    using rating_key_int by blast
  have 5: "report parse_float str_other True found
           = (case print_metadata str_other metadata of
                Inl e \<Rightarrow> Inl e
              | Inr table \<Rightarrow> Inr (Some table))"
    using 0 by (simp add: report_def)
  have 6: "\<forall>table. print_metadata str_other metadata = Inr table \<longrightarrow>
             list_all2 (\<lambda>e row. \<exists>en. make_entry str_other (fst e) (snd e) = Inr en
                                    \<and> row = table_row en) metadata table"
    using print_metadata_rows by blast
  from 0 1 2 3 4 ints 5 6 show ?thesis by (intro exI [of _ metadata] conjI)
qed

theorem report_sorted_by_rating_witness:
  "sorted_metadata (\<lambda>s. None)
     [(\<lparr>title = ''A'', year = None, name = ''/d/a''\<rparr>,
       \<lparr>movieID = ''1'', data = [(''title'', PStr ''A'')]\<rparr>),
      (\<lparr>title = ''B'', year = None, name = ''/d/b''\<rparr>,
       \<lparr>movieID = ''2'', data = [(''title'', PStr ''B''), (''rating'', PFloat 7.5)]\<rparr>),
      (\<lparr>title = ''C'', year = None, name = ''/d/c''\<rparr>,
       \<lparr>movieID = ''3'', data = [(''title'', PStr ''C''), (''rating'', PFloat 8.8)]\<rparr>)]
   = Inr
     [(\<lparr>title = ''C'', year = None, name = ''/d/c''\<rparr>,
       \<lparr>movieID = ''3'', data = [(''title'', PStr ''C''), (''rating'', PFloat 8.8)]\<rparr>),
      (\<lparr>title = ''B'', year = None, name = ''/d/b''\<rparr>,
       \<lparr>movieID = ''2'', data = [(''title'', PStr ''B''), (''rating'', PFloat 7.5)]\<rparr>),
      (\<lparr>title = ''A'', year = None, name = ''/d/a''\<rparr>,
       \<lparr>movieID = ''1'', data = [(''title'', PStr ''A'')]\<rparr>)]
   \<and> sorted_wrt (rating_ge (\<lambda>s. None))
     [(\<lparr>title = ''C'', year = None, name = ''/d/c''\<rparr>,
       \<lparr>movieID = ''3'', data = [(''title'', PStr ''C''), (''rating'', PFloat 8.8)]\<rparr>),
      (\<lparr>title = ''B'', year = None, name = ''/d/b''\<rparr>,
       \<lparr>movieID = ''2'', data = [(''title'', PStr ''B''), (''rating'', PFloat 7.5)]\<rparr>),
      (\<lparr>title = ''A'', year = None, name = ''/d/a''\<rparr>,
       \<lparr>movieID = ''1'', data = [(''title'', PStr ''A'')]\<rparr>)]"
proof -
  let ?pf = "\<lambda>s::string. (None :: real option)"
  let ?a = "(\<lparr>title = ''A'', year = None, name = ''/d/a''\<rparr>,
             \<lparr>movieID = ''1'', data = [(''title'', PStr ''A'')]\<rparr>)"
  let ?b = "(\<lparr>title = ''B'', year = None, name = ''/d/b''\<rparr>,
             \<lparr>movieID = ''2'', data = [(''title'', PStr ''B''), (''rating'', PFloat 7.5)]\<rparr>)"
  let ?c = "(\<lparr>title = ''C'', year = None, name = ''/d/c''\<rparr>,
             \<lparr>movieID = ''3'', data = [(''title'', PStr ''C''), (''rating'', PFloat 8.8)]\<rparr>)"
  have ka: "rating_key ?pf ?a = Inr 0" and kb: "rating_key ?pf ?b = Inr 7.5"
    and kc: "rating_key ?pf ?c = Inr 8.8"
    by (simp_all add: rating_key_def meta_get_def py_or_def to_float_def float_of_int_exact)
  have h: "\<forall>e\<in>set [?a, ?b, ?c]. \<exists>r. rating_key ?pf e = Inr r"
  proof
    fix e assume "e \<in> set [?a, ?b, ?c]"
    then have "e = ?a \<or> e = ?b \<or> e = ?c" by simp
    then show "\<exists>r. rating_key ?pf e = Inr r" using ka kb kc by blast
  qed
  have run: "sorted_metadata ?pf [?a, ?b, ?c] = Inr [?c, ?b, ?a]"
    using ka kb kc by (simp add: sorted_metadata_def sorted_reverse_def)
  from report_sorted_by_rating [OF h, of "\<lambda>v. []"] run
  have "sorted_wrt (rating_ge ?pf) [?c, ?b, ?a]" by auto
  with run show ?thesis by (intro conjI)
qed

end
